theory Spec2Isabelle
  imports Complex_Main "HOL-Library.Log_Nat"
begin

section \<open>Plot tools of the Neuronal Dynamics exercises: data model\<close>

text \<open>
  The embedding follows \<^verbatim>\<open>neurodynex/tools/plot_tools.py\<close>. Physical quantities
  (brian2 \<^verbatim>\<open>Quantity\<close>) are rational numbers in SI base units, so that dividing by a
  unit gives the plain number the plotting library receives. Times, voltages and currents
  are exact rationals; the rows of the highlighted spike trains are computed in double
  precision, as numpy does, because rounding decides them (see \<open>float64\<close> below). The
  interpreter is Python 3. A figure is the record of what the call hands to the
  plotting library; a call that raises returns the exception instead. The default values
  of the Python signatures (three highlighted spike trains, 50 bins, a cutoff of 100 ms)
  are arguments like any other here.
\<close>

definition ms :: rat where "ms = 1 / 1000"
definition mV :: rat where "mV = 1 / 1000"
definition amp :: rat where "amp = 1"

datatype py_error =
    AssertionError string
  | ValueError
  | IndexError
  | KeyError
  | AxisError

text \<open>Sequencing of statements that may raise: the first exception ends the call.\<close>

definition py_bind :: "py_error + 'a \<Rightarrow> ('a \<Rightarrow> py_error + 'b) \<Rightarrow> py_error + 'b" where
  "py_bind m f = (case m of Inl e \<Rightarrow> Inl e | Inr x \<Rightarrow> f x)"

text \<open>
  \<^verbatim>\<open>PopulationRateMonitor\<close>: the sample times, and what its method
  \<^verbatim>\<open>smooth_rate(window="flat", width=0.5*ms)\<close> returns, already divided by Hz
  (the smoothing itself is brian2's).
\<close>

record rate_mon =
  rate_t :: "rat list"
  smooth_rate :: "rat list"

text \<open>
  \<^verbatim>\<open>SpikeMonitor\<close>: the dictionary returned by \<^verbatim>\<open>spike_trains()\<close>, as the list of
  its items.
\<close>

record spike_mon =
  spike_trains :: "(int \<times> rat list) list"

text \<open>
  \<^verbatim>\<open>StateMonitor\<close>: sample times, the recorded neuron indices, and one voltage
  trace per recorded index (row \<open>k\<close> belongs to neuron \<open>recorded ! k\<close>). Every trace has
  one value per sample time, and a rate monitor has one rate per sample time.
\<close>

record state_mon =
  state_t :: "rat list"
  recorded :: "int list"
  v :: "rat list list"

text \<open>The values a caller can pass for the dynamically typed arguments.\<close>

datatype pyobj =
    PyNone
  | PopulationRateMonitor rate_mon
  | SpikeMonitor spike_mon
  | StateMonitor state_mon
  | TimedArray "rat \<Rightarrow> rat"
  | PyList "int list"
  | PyTuple "int list"
  | NdArray "int list"
  | PyRange "int list"
  | PyStr string
  | PyInt int

fun isinstance_list :: "pyobj \<Rightarrow> bool" where
  "isinstance_list (PyList xs) = True"
| "isinstance_list other = False"

fun isinstance_PopulationRateMonitor :: "pyobj \<Rightarrow> bool" where
  "isinstance_PopulationRateMonitor (PopulationRateMonitor r) = True"
| "isinstance_PopulationRateMonitor other = False"

fun isinstance_SpikeMonitor :: "pyobj \<Rightarrow> bool" where
  "isinstance_SpikeMonitor (SpikeMonitor s) = True"
| "isinstance_SpikeMonitor other = False"

fun isinstance_StateMonitor :: "pyobj \<Rightarrow> bool" where
  "isinstance_StateMonitor (StateMonitor s) = True"
| "isinstance_StateMonitor other = False"

fun isinstance_TimedArray :: "pyobj \<Rightarrow> bool" where
  "isinstance_TimedArray (TimedArray f) = True"
| "isinstance_TimedArray other = False"

text \<open>
  Python's sequence types (\<^verbatim>\<open>collections.abc.Sequence\<close>) among the values above,
  together with numpy arrays, which index and iterate like one.
\<close>

fun is_sequence_type :: "pyobj \<Rightarrow> bool" where
  "is_sequence_type (PyList xs) = True"
| "is_sequence_type (PyTuple xs) = True"
| "is_sequence_type (NdArray xs) = True"
| "is_sequence_type (PyRange xs) = True"
| "is_sequence_type (PyStr s) = True"
| "is_sequence_type other = False"

subsection \<open>Python and numpy primitives\<close>

text \<open>The builtins \<^verbatim>\<open>max\<close> and \<^verbatim>\<open>min\<close> raise ValueError on an empty sequence.\<close>

fun py_max :: "rat list \<Rightarrow> py_error + rat" where
  "py_max [] = Inl ValueError"
| "py_max (x # xs) = Inr (fold max xs x)"

fun py_min :: "rat list \<Rightarrow> py_error + rat" where
  "py_min [] = Inl ValueError"
| "py_min (x # xs) = Inr (fold min xs x)"

text \<open>\<^verbatim>\<open>int(x)\<close> truncates towards zero.\<close>

definition py_int :: "rat \<Rightarrow> int" where
  "py_int x = (if 0 \<le> x then \<lfloor>x\<rfloor> else \<lceil>x\<rceil>)"

text \<open>\<^verbatim>\<open>xs[i]\<close>: a negative index counts from the end, out of range raises IndexError.\<close>

definition getitem :: "'a list \<Rightarrow> int \<Rightarrow> py_error + 'a" where
  "getitem xs i =
     (if 0 \<le> i \<and> i < int (length xs) then Inr (xs ! nat i)
      else if i < 0 \<and> 0 \<le> int (length xs) + i then Inr (xs ! nat (int (length xs) + i))
      else Inl IndexError)"

text \<open>\<^verbatim>\<open>d[k]\<close> on a dictionary raises KeyError for a missing key.\<close>

definition dict_getitem :: "(int \<times> 'a) list \<Rightarrow> int \<Rightarrow> py_error + 'a" where
  "dict_getitem d k = (case map_of d k of None \<Rightarrow> Inl KeyError | Some x \<Rightarrow> Inr x)"

text \<open>
  A double-precision number is a rational \<open>m * 2 ^ e\<close> with \<open>\<bar>m\<bar> < 2 ^ 53\<close>, and every
  arithmetic operation on doubles returns the exact result rounded to the nearest such
  number, ties to the even significand. \<open>binary_exponent x\<close> is the \<open>e\<close> with
  \<open>2 ^ e \<le> \<bar>x\<bar> < 2 ^ (e + 1)\<close>. The range of the exponent is not bounded here: overflow
  and underflow need more than \<open>2 ^ 1000\<close> spike trains.
\<close>

definition binary_exponent :: "rat \<Rightarrow> int" where
  "binary_exponent x =
     (if 1 \<le> \<bar>x\<bar> then bitlen \<lfloor>\<bar>x\<bar>\<rfloor> - 1 else - bitlen (\<lceil>1 / \<bar>x\<bar>\<rceil> - 1))"

definition round_half_even :: "rat \<Rightarrow> int" where
  "round_half_even x =
     (let f = \<lfloor>x\<rfloor>; r = x - of_int f
      in if r < 1 / 2 then f else if 1 / 2 < r then f + 1 else if even f then f else f + 1)"

definition float64 :: "rat \<Rightarrow> rat" where
  "float64 x =
     (if x = 0 then 0
      else (let ulp = 2 powi (binary_exponent x - 52)
            in of_int (round_half_even (x / ulp)) * ulp))"

text \<open>
  \<^verbatim>\<open>numpy.linspace(start, stop, num)\<close> on doubles: \<^verbatim>\<open>step = (stop - start) / (num - 1)\<close>,
  sample \<open>i\<close> is \<^verbatim>\<open>i * step + start\<close> (or \<^verbatim>\<open>i / (num - 1) * (stop - start) + start\<close>
  when the step has rounded to 0), and the last sample is set to \<^verbatim>\<open>stop\<close>.
\<close>

definition linspace :: "rat \<Rightarrow> rat \<Rightarrow> nat \<Rightarrow> rat list" where
  "linspace start stop num =
     (let divisor = num - 1;
          delta = float64 (stop - start);
          y = (if divisor > 0
               then (let step = float64 (delta / float64 (rat_of_nat divisor))
                     in if step = 0
                        then map (\<lambda>i. float64 (float64 (float64 (rat_of_nat i)
                                                   / float64 (rat_of_nat divisor)) * delta))
                               [0..<num]
                        else map (\<lambda>i. float64 (float64 (rat_of_nat i) * step)) [0..<num])
               else map (\<lambda>i. float64 (float64 (rat_of_nat i) * delta)) [0..<num]);
          y' = map (\<lambda>x. float64 (x + start)) y
      in if num > 1 then butlast y' @ [stop] else y')"

text \<open>The slice \<^verbatim>\<open>xs[1:-1]\<close>.\<close>

definition slice_1_m1 :: "'a list \<Rightarrow> 'a list" where
  "slice_1_m1 xs = butlast (tl xs)"

text \<open>
  \<^verbatim>\<open>voltage_monitor[i].v\<close>: the trace of neuron \<open>i\<close>; brian2 raises IndexError when
  the neuron was not recorded.
\<close>

definition state_getitem_v :: "state_mon \<Rightarrow> int \<Rightarrow> py_error + rat list" where
  "state_getitem_v m i =
     (case map_of (zip (recorded m) (v m)) i of None \<Rightarrow> Inl IndexError | Some tr \<Rightarrow> Inr tr)"

section \<open>plot_voltage_and_current_traces\<close>

record vc_figure =
  current_curve :: "(rat \<times> rat) list"
  current_ylim :: "(rat \<times> rat) option"
  current_min_max :: "rat \<times> rat"
  voltage_curve :: "(rat \<times> rat) list"
  threshold_line :: "((rat \<times> rat) \<times> (rat \<times> rat)) option"
  voltage_ylim :: "rat \<times> rat"
  voltage_min_max :: "rat \<times> rat"
  legend :: "(string list \<times> int) option"
  suptitle :: "string option"
  shown :: bool

text \<open>Lines 43 to 50: the margin of the current panel and its y-limits, if any are set.\<close>

definition current_margin :: "rat \<Rightarrow> rat \<Rightarrow> rat" where
  "current_margin min_current max_current = 105 / 100 * (max_current - min_current)"

definition current_panel_ylim :: "rat \<Rightarrow> rat \<Rightarrow> (rat \<times> rat) option" where
  "current_panel_ylim min_current max_current =
     (let margin = current_margin min_current max_current
      in if margin > 0
         then Some ((min_current - margin) / amp, (max_current + margin) / amp)
         else None)"

text \<open>Lines 62 to 67: the y-limits of the voltage panel.\<close>

definition voltage_panel_range :: "rat list \<Rightarrow> rat option \<Rightarrow> py_error + (rat \<times> rat)" where
  "voltage_panel_range v0 firing_threshold =
     py_bind (py_max v0) (\<lambda>max_val0.
       (let max_val = (case firing_threshold of None \<Rightarrow> max_val0
                       | Some th \<Rightarrow> max max_val0 th)
        in py_bind (py_min v0) (\<lambda>min_val. Inr (min_val, max_val))))"

definition voltage_panel_ylim :: "rat \<times> rat \<Rightarrow> rat \<times> rat" where
  "voltage_panel_ylim r =
     (let min_val = fst r; max_val = snd r;
          margin = 5 / 100 * (max_val - min_val)
      in ((min_val - margin) / mV, (max_val + margin) / mV))"

text \<open>Lines 56 to 61: the dashed threshold line from the first to the last sample time.\<close>

definition threshold_reference_line ::
  "rat list \<Rightarrow> rat option \<Rightarrow> py_error + ((rat \<times> rat) \<times> (rat \<times> rat)) option" where
  "threshold_reference_line time_values_ms firing_threshold =
     (case firing_threshold of
        None \<Rightarrow> Inr None
      | Some th \<Rightarrow>
          py_bind (getitem time_values_ms 0) (\<lambda>t0.
          py_bind (getitem time_values_ms (- 1)) (\<lambda>t1.
            Inr (Some ((t0, t1), (th / mV, th / mV))))))"

definition plot_voltage_and_current_traces ::
  "pyobj \<Rightarrow> pyobj \<Rightarrow> string option \<Rightarrow> rat option \<Rightarrow> bool \<Rightarrow> int \<Rightarrow> py_error + vc_figure" where
  "plot_voltage_and_current_traces voltage_monitor current title firing_threshold do_show_plot
       legend_location =
     (case voltage_monitor of
        StateMonitor vm \<Rightarrow>
          (case current of
             TimedArray cur \<Rightarrow>
               (let time_values_ms = map (\<lambda>x. x / ms) (state_t vm);
                    c = map cur (state_t vm)
                in py_bind (py_max c) (\<lambda>max_current.
                   py_bind (py_min c) (\<lambda>min_current.
                   py_bind (state_getitem_v vm 0) (\<lambda>v0.
                   py_bind (threshold_reference_line time_values_ms firing_threshold) (\<lambda>line.
                   py_bind (voltage_panel_range v0 firing_threshold) (\<lambda>r.
                     Inr \<lparr> current_curve = zip time_values_ms c,
                           current_ylim = current_panel_ylim min_current max_current,
                           current_min_max = (min_current, max_current),
                           voltage_curve = zip time_values_ms (map (\<lambda>x. x / mV) v0),
                           threshold_line = line,
                           voltage_ylim = voltage_panel_ylim r,
                           voltage_min_max = r,
                           legend = (case firing_threshold of None \<Rightarrow> None
                                     | Some th \<Rightarrow>
                                         Some ([''vm'', ''firing threshold''], legend_location)),
                           suptitle = title,
                           shown = do_show_plot \<rparr>))))))
           | other \<Rightarrow> Inl (AssertionError ''current is not of type TimedArray''))
      | other \<Rightarrow> Inl (AssertionError ''voltage_monitor is not of type StateMonitor''))"

section \<open>plot_network_activity\<close>

text \<open>
  What the call draws: the time window in ms, the index list the rows come from, one
  scatter call per raster row (row, neuron, spike times), the y-limits of the raster, one
  highlight per highlighted row (row, colour, spike times), the windowed smoothed rate,
  and the voltage panel (\<open>None\<close> when there is no voltage monitor), one entry per
  plotted trace (colour, neuron, points).
\<close>

record na_figure =
  window :: "rat \<times> rat"
  selection :: "int list"
  raster :: "(nat \<times> int \<times> rat list) list"
  raster_ylim :: "nat \<times> nat"
  highlights :: "(int \<times> string \<times> rat list) list"
  rate_curve :: "(rat \<times> rat) list"
  ax_voltage :: "(string \<times> int \<times> (rat \<times> rat) list) list option"

text \<open>
  \<^verbatim>\<open>numpy.sort(all_spike_trains.keys())\<close>: in Python 3 \<^verbatim>\<open>keys()\<close> is a view, which numpy
  takes for one object, an array without axes, and sorting along the last axis raises
  AxisError whatever the keys are.
\<close>

definition numpy_sort_dict_keys :: "(int \<times> 'a) list \<Rightarrow> py_error + int list" where
  "numpy_sort_dict_keys d = Inl AxisError"

text \<open>Lines 117 to 126: the index list of the neurons whose spike trains are plotted.\<close>

definition select_spike_train_idx_list ::
  "(int \<times> rat list) list \<Rightarrow> state_mon option \<Rightarrow> int list option
     \<Rightarrow> py_error + int list" where
  "select_spike_train_idx_list all_spike_trains voltage_monitor spike_train_idx_list =
     (case spike_train_idx_list of
        None \<Rightarrow>
          py_bind (case voltage_monitor of
                     Some vm \<Rightarrow> Inr (sort (recorded vm))
                   | None \<Rightarrow> numpy_sort_dict_keys all_spike_trains) (\<lambda>l.
            Inr (if length l > 500 then take 500 l else l))
      | Some l \<Rightarrow> Inr l)"

text \<open>Lines 129 to 136: the plotted interval \<open>(t_min, t_max)\<close>, in ms.\<close>

definition default_interval :: "rate_mon \<Rightarrow> rat option \<Rightarrow> rat option \<Rightarrow> py_error + (rat \<times> rat)" where
  "default_interval rate_monitor t_min t_max =
     py_bind (case t_max of
                None \<Rightarrow> py_max (map (\<lambda>x. x / ms) (rate_t rate_monitor))
              | Some q \<Rightarrow> Inr (q / ms)) (\<lambda>t_max'.
       Inr (case t_min of None \<Rightarrow> max 0 (t_max' - 100) | Some q \<Rightarrow> q / ms, t_max'))"

text \<open>\<^verbatim>\<open>get_spike_train_ts_indices\<close>: the spikes of a train within the window, in ms.\<close>

definition get_spike_train_ts :: "rat \<times> rat \<Rightarrow> rat list \<Rightarrow> rat list" where
  "get_spike_train_ts w spike_train =
     filter (\<lambda>ts. fst w \<le> ts \<and> ts \<le> snd w) (map (\<lambda>x. x / ms) spike_train)"

text \<open>\<^verbatim>\<open>plot_raster\<close>: the loop over the index list, with its row counter.\<close>

fun plot_raster ::
  "(int \<times> rat list) list \<Rightarrow> rat \<times> rat \<Rightarrow> int list \<Rightarrow> nat
     \<Rightarrow> py_error + ((nat \<times> int \<times> rat list) list \<times> nat)" where
  "plot_raster all_spike_trains w [] neuron_counter = Inr ([], neuron_counter)"
| "plot_raster all_spike_trains w (neuron_index # rest) neuron_counter =
     py_bind (dict_getitem all_spike_trains neuron_index) (\<lambda>train.
     py_bind (plot_raster all_spike_trains w rest (Suc neuron_counter)) (\<lambda>r.
       Inr ((neuron_counter, neuron_index, get_spike_train_ts w train) # fst r, snd r)))"

text \<open>\<^verbatim>\<open>highlight_raster\<close>: the loop over \<open>range(len(neuron_idxs))\<close>, from position \<open>i\<close>.\<close>

fun highlight_raster ::
  "(int \<times> rat list) list \<Rightarrow> rat \<times> rat \<Rightarrow> int list \<Rightarrow> nat \<Rightarrow> int list
     \<Rightarrow> py_error + (int \<times> string \<times> rat list) list" where
  "highlight_raster all_spike_trains w spike_train_idx_list i [] = Inr []"
| "highlight_raster all_spike_trains w spike_train_idx_list i (raster_plot_index # rest) =
     py_bind (getitem spike_train_idx_list raster_plot_index) (\<lambda>population_index.
     py_bind (dict_getitem all_spike_trains population_index) (\<lambda>train.
     py_bind (highlight_raster all_spike_trains w spike_train_idx_list (Suc i) rest) (\<lambda>hs.
       Inr ((raster_plot_index, if i = 0 then ''r'' else ''k'', get_spike_train_ts w train)
              # hs))))"

text \<open>\<^verbatim>\<open>plot_population_activity\<close>: the smoothed rate within the window.\<close>

definition plot_population_activity :: "rate_mon \<Rightarrow> rat \<times> rat \<Rightarrow> (rat \<times> rat) list" where
  "plot_population_activity rate_monitor w =
     filter (\<lambda>p. fst w \<le> fst p \<and> fst p \<le> snd w)
       (zip (map (\<lambda>x. x / ms) (rate_t rate_monitor)) (smooth_rate rate_monitor))"

text \<open>\<^verbatim>\<open>plot_voltage_traces\<close>: the loop over \<open>range(len(voltage_traces_i))\<close>.\<close>

fun plot_voltage_traces ::
  "state_mon \<Rightarrow> rat \<times> rat \<Rightarrow> int list \<Rightarrow> nat \<Rightarrow> int list
     \<Rightarrow> py_error + (string \<times> int \<times> (rat \<times> rat) list) list" where
  "plot_voltage_traces voltage_monitor w spike_train_idx_list i [] = Inr []"
| "plot_voltage_traces voltage_monitor w spike_train_idx_list i (raster_plot_index # rest) =
     py_bind (getitem spike_train_idx_list raster_plot_index) (\<lambda>population_index.
     py_bind (state_getitem_v voltage_monitor population_index) (\<lambda>trace.
     py_bind (plot_voltage_traces voltage_monitor w spike_train_idx_list (Suc i) rest) (\<lambda>ps.
       Inr ((if i = 0 then ''r'' else ''.7'', population_index,
             filter (\<lambda>p. fst w \<le> fst p \<and> fst p \<le> snd w)
               (zip (map (\<lambda>x. x / ms) (state_t voltage_monitor)) (map (\<lambda>x. x / mV) trace)))
              # ps))))"

text \<open>
  Lines 219 and 220: the highlighted rows of the raster. The product of the number of
  neurons, converted to a double, and a fraction is a double product.
\<close>

definition highlighted_neurons :: "nat \<Rightarrow> int \<Rightarrow> int list" where
  "highlighted_neurons nr_neurons N_highlighted_spiketrains =
     (let fract = slice_1_m1 (linspace 0 1 (nat (N_highlighted_spiketrains + 2)))
      in map (\<lambda>x. py_int (float64 (float64 (rat_of_nat nr_neurons) * x))) fract)"

text \<open>The body of the function, after the four assertions on the argument types.\<close>

definition network_activity ::
  "rate_mon \<Rightarrow> spike_mon \<Rightarrow> state_mon option \<Rightarrow> int list option \<Rightarrow> rat option \<Rightarrow> rat option
     \<Rightarrow> int \<Rightarrow> py_error + na_figure" where
  "network_activity rate_monitor spike_monitor voltage_monitor spike_train_idx_list0 t_min t_max
       N_highlighted_spiketrains =
     (let all_spike_trains = spike_trains spike_monitor
      in py_bind (select_spike_train_idx_list all_spike_trains voltage_monitor
                    spike_train_idx_list0) (\<lambda>spike_train_idx_list.
         py_bind (default_interval rate_monitor t_min t_max) (\<lambda>w.
         py_bind (plot_raster all_spike_trains w spike_train_idx_list 0) (\<lambda>rast.
         (let nr_neurons = length spike_train_idx_list
          in py_bind (if N_highlighted_spiketrains > 0
                      then (let highlighted_neurons_i =
                                  highlighted_neurons nr_neurons N_highlighted_spiketrains
                            in py_bind (highlight_raster all_spike_trains w spike_train_idx_list 0
                                          highlighted_neurons_i)
                                 (\<lambda>hs. Inr (highlighted_neurons_i, hs)))
                      else Inr ([], [])) (\<lambda>hl.
             py_bind (case voltage_monitor of
                        None \<Rightarrow> Inr None
                      | Some vm \<Rightarrow>
                          (let traces_i = (if N_highlighted_spiketrains = 0
                                           then map int [0..<nr_neurons] else fst hl)
                           in py_bind (plot_voltage_traces vm w spike_train_idx_list 0 traces_i)
                                (\<lambda>ps. Inr (Some ps)))) (\<lambda>axv.
               Inr \<lparr> window = w,
                     selection = spike_train_idx_list,
                     raster = fst rast,
                     raster_ylim = (0, snd rast),
                     highlights = snd hl,
                     rate_curve = plot_population_activity rate_monitor w,
                     ax_voltage = axv \<rparr>)))))))"

fun optional_StateMonitor :: "pyobj \<Rightarrow> state_mon option option" where
  "optional_StateMonitor PyNone = Some None"
| "optional_StateMonitor (StateMonitor m) = Some (Some m)"
| "optional_StateMonitor other = None"

fun optional_list :: "pyobj \<Rightarrow> int list option option" where
  "optional_list PyNone = Some None"
| "optional_list (PyList xs) = Some (Some xs)"
| "optional_list other = None"

definition plot_network_activity ::
  "pyobj \<Rightarrow> pyobj \<Rightarrow> pyobj \<Rightarrow> pyobj \<Rightarrow> rat option \<Rightarrow> rat option \<Rightarrow> int
     \<Rightarrow> py_error + na_figure" where
  "plot_network_activity rate_monitor spike_monitor voltage_monitor spike_train_idx_list t_min t_max
       N_highlighted_spiketrains =
     (case rate_monitor of
        PopulationRateMonitor rm \<Rightarrow>
          (case spike_monitor of
             SpikeMonitor sm \<Rightarrow>
               (case optional_StateMonitor voltage_monitor of
                  Some vm \<Rightarrow>
                    (case optional_list spike_train_idx_list of
                       Some idx \<Rightarrow>
                         network_activity rm sm vm idx t_min t_max N_highlighted_spiketrains
                     | None \<Rightarrow> Inl (AssertionError ''spike_train_idx_list is not of type list''))
                | None \<Rightarrow> Inl (AssertionError ''voltage_monitor is not of type StateMonitor''))
           | other \<Rightarrow> Inl (AssertionError ''spike_monitor is not of type SpikeMonitor''))
      | other \<Rightarrow> Inl (AssertionError ''rate_monitor  is not of type PopulationRateMonitor''))"

section \<open>plot_ISI_distribution\<close>

text \<open>
  What \<^verbatim>\<open>spike_tools.get_spike_train_stats\<close> returns, as far as this function reads it.
  The helper itself is a parameter of the model.
\<close>

record spike_train_stats =
  all_ISI :: "rat list"
  CV :: rat

record isi_figure =
  hist_data :: "rat list"
  hist_bins :: nat
  title_CV :: rat

definition plot_ISI_distribution ::
  "(spike_mon \<Rightarrow> spike_train_stats) \<Rightarrow> spike_mon \<Rightarrow> nat \<Rightarrow> rat \<Rightarrow> isi_figure" where
  "plot_ISI_distribution get_spike_train_stats spike_monitor hist_nr_bins hist_max_ISI =
     (let stats = get_spike_train_stats spike_monitor;
          isi_ms = map (\<lambda>x. x / ms) (all_ISI stats);
          isi_ms' = filter (\<lambda>x. x \<le> hist_max_ISI / ms) isi_ms
      in \<lparr> hist_data = isi_ms', hist_bins = hist_nr_bins, title_CV = CV stats \<rparr>)"

section \<open>Example inputs\<close>

text \<open>A rate series from 0 to 250 ms, and spike monitors of two and of five neurons.\<close>

definition ex_rate :: rate_mon where
  "ex_rate = \<lparr> rate_t = [0, 1 / 10, 1 / 4], smooth_rate = [0, 5, 7] \<rparr>"

definition ex_spikes :: spike_mon where
  "ex_spikes = \<lparr> spike_trains = [(0, [1 / 5]), (1, [1 / 10, 1 / 5])] \<rparr>"

definition ex_spikes5 :: spike_mon where
  "ex_spikes5 =
     \<lparr> spike_trains = [(1, [1 / 5]), (2, [1 / 10, 1 / 5]), (3, []), (4, [1 / 4]), (5, [3 / 10])] \<rparr>"

definition ex_fig5 :: na_figure where
  "ex_fig5 = \<lparr> window = (150, 250), selection = [1, 2, 3, 4, 5],
      raster = [(0, 1, [200]), (1, 2, [200]), (2, 3, []), (3, 4, [250]), (4, 5, [])],
      raster_ylim = (0, 5),
      highlights = [(1, ''r'', [200]), (2, ''k'', []), (3, ''k'', [250])],
      rate_curve = [(250, 7)], ax_voltage = None \<rparr>"

definition ex_spikes_unordered :: spike_mon where
  "ex_spikes_unordered = \<lparr> spike_trains = [(2, [1 / 5]), (0, []), (1, [1 / 4])] \<rparr>"

definition ex_fig_explicit :: na_figure where
  "ex_fig_explicit = \<lparr> window = (150, 250), selection = [5, 1, 3],
      raster = [(0, 5, []), (1, 1, [200]), (2, 3, [])],
      raster_ylim = (0, 3), highlights = [], rate_curve = [(250, 7)],
      ax_voltage = None \<rparr>"

text \<open>
  A voltage monitor of three neurons with three samples each (0, 1 and 2 ms; neuron 0
  goes from 0 over 10 mV to 5 mV), and two injected currents.
\<close>

definition ex_state :: state_mon where
  "ex_state = \<lparr> state_t = [0, 1 / 1000, 2 / 1000], recorded = [0, 1, 2],
       v = [[0, 1 / 100, 1 / 200], [0, 0, 1 / 100], [1 / 100, 0, 0]] \<rparr>"

definition ex_flat_current :: "rat \<Rightarrow> rat" where
  "ex_flat_current t = 3"

definition ex_ramp_current :: "rat \<Rightarrow> rat" where
  "ex_ramp_current t = 1000 * t"

text \<open>
  A statistics helper that reports the inter-spike intervals 1, 2, 3 and 150 ms for
  every monitor, with some CV.
\<close>

definition ex_stats :: "spike_mon \<Rightarrow> spike_train_stats" where
  "ex_stats m = \<lparr> all_ISI = [1 / 1000, 2 / 1000, 3 / 1000, 150 / 1000], CV = 191 / 100 \<rparr>"

text \<open>
  The figure for the three-neuron monitors on the window from 0 to 2 ms, with three
  highlighted spike trains.
\<close>

definition ex_fig_voltage :: na_figure where
  "ex_fig_voltage = \<lparr> window = (0, 2), selection = [0, 1, 2],
      raster = [(0, 0, []), (1, 1, []), (2, 2, [])], raster_ylim = (0, 3),
      highlights = [(0, ''r'', []), (1, ''k'', []), (2, ''k'', [])],
      rate_curve = [(0, 0)],
      ax_voltage = Some [(''r'', 0, [(0, 0), (1, 10), (2, 5)]),
                         (''.7'', 1, [(0, 0), (1, 0), (2, 10)]),
                         (''.7'', 2, [(0, 10), (1, 0), (2, 0)])] \<rparr>"

section \<open>Properties\<close>

subsection \<open>Auxiliary facts\<close>

lemma py_max_Max: "xs \<noteq> [] \<Longrightarrow> py_max xs = Inr (Max (set xs))"
proof (cases xs)
  case (Cons a list)
  then show ?thesis using Max.set_eq_fold [of a list] by simp
qed simp

lemma py_min_Min: "xs \<noteq> [] \<Longrightarrow> py_min xs = Inr (Min (set xs))"
proof (cases xs)
  case (Cons a list)
  then show ?thesis using Min.set_eq_fold [of a list] by simp
qed simp

lemma sorted_le_last:
  fixes xs :: "rat list"
  shows "sorted xs \<Longrightarrow> x \<in> set xs \<Longrightarrow> x \<le> last xs"
  by (induction xs) auto

lemma Max_sorted_last:
  fixes xs :: "rat list"
  assumes "xs \<noteq> []" "sorted xs"
  shows "Max (set xs) = last xs"
  using assms by (intro Max_eqI) (auto simp: sorted_le_last)

lemma plot_network_activity_Inr:
  assumes "plot_network_activity R S V I t_min t_max N = Inr fig"
  shows "\<exists>rm sm vm idx. R = PopulationRateMonitor rm \<and> S = SpikeMonitor sm \<and>
           optional_StateMonitor V = Some vm \<and> optional_list I = Some idx \<and>
           network_activity rm sm vm idx t_min t_max N = Inr fig"
  using assms unfolding plot_network_activity_def
  by (auto split: pyobj.splits option.splits)

lemma py_bind_Inr: "py_bind m f = Inr y \<longleftrightarrow> (\<exists>x. m = Inr x \<and> f x = Inr y)"
  by (cases m) (simp_all add: py_bind_def)

lemma network_activity_window:
  assumes "network_activity rm sm vm idx t_min t_max N = Inr fig"
  shows "default_interval rm t_min t_max = Inr (window fig)"
  using assms unfolding network_activity_def Let_def
  by (auto simp: py_bind_Inr)

lemma network_activity_selection:
  assumes "network_activity rm sm vm idx t_min t_max N = Inr fig"
  shows "select_spike_train_idx_list (spike_trains sm) vm idx = Inr (selection fig)"
  using assms unfolding network_activity_def Let_def
  by (auto simp: py_bind_Inr)


text \<open>
  Claim C1. With a non-empty rate series, the interval is \<open>(t_min, t_max)\<close> where an omitted
  \<open>t_max\<close> is the maximum timestamp of the rate series (its last one when the series
  ascends) and an omitted \<open>t_min\<close> is \<open>max 0 (t_max - 100)\<close>, all in ms; given values are
  used as they are (in ms). Every figure the call returns has this window, and a series
  from 0 to 250 ms gives \<open>(150, 250)\<close>.
\<close>

theorem window_derivation:
  assumes "rate_t rm \<noteq> []"
  shows "default_interval rm t_min t_max =
           Inr (case t_min of
                  None \<Rightarrow> max 0 ((case t_max of
                                      None \<Rightarrow> Max (set (map (\<lambda>x. x / ms) (rate_t rm)))
                                    | Some q \<Rightarrow> q / ms) - 100)
                | Some q \<Rightarrow> q / ms,
                case t_max of
                  None \<Rightarrow> Max (set (map (\<lambda>x. x / ms) (rate_t rm)))
                | Some q \<Rightarrow> q / ms)
         \<and> (sorted (rate_t rm) \<longrightarrow>
              Max (set (map (\<lambda>x. x / ms) (rate_t rm))) = last (rate_t rm) / ms)
         \<and> (plot_network_activity (PopulationRateMonitor rm) S V I t_min t_max N = Inr fig \<longrightarrow>
              default_interval rm t_min t_max = Inr (window fig))
         \<and> (sorted (rate_t rm) \<and> hd (rate_t rm) = 0 \<and> last (rate_t rm) = 250 * ms \<longrightarrow>
              default_interval rm None None = Inr (150, 250))"
proof -
  let ?ts = "map (\<lambda>x. x / ms) (rate_t rm)"
  have ne: "?ts \<noteq> []" using assms by simp
  have a: "default_interval rm t_min t_max =
           Inr (case t_min of
                  None \<Rightarrow> max 0 ((case t_max of None \<Rightarrow> Max (set ?ts) | Some q \<Rightarrow> q / ms) - 100)
                | Some q \<Rightarrow> q / ms,
                case t_max of None \<Rightarrow> Max (set ?ts) | Some q \<Rightarrow> q / ms)"
    for t_min t_max
    unfolding default_interval_def using py_max_Max [OF ne]
    by (simp add: py_bind_def split: option.splits)
  have mono: "sorted ?ts" if "sorted (rate_t rm)"
    using that by (simp add: sorted_map ms_def sorted_wrt_iff_nth_less sorted_iff_nth_mono_less)
  have b: "Max (set ?ts) = last (rate_t rm) / ms" if "sorted (rate_t rm)"
    using Max_sorted_last [OF ne mono [OF that]] assms by (simp add: last_map)
  have c: "default_interval rm t_min t_max = Inr (window fig)"
    if "plot_network_activity (PopulationRateMonitor rm) S V I t_min t_max N = Inr fig"
    using plot_network_activity_Inr [OF that] network_activity_window by auto
  have d: "default_interval rm None None = Inr (150, 250)"
    if "sorted (rate_t rm) \<and> hd (rate_t rm) = 0 \<and> last (rate_t rm) = 250 * ms"
    using a [of None None] b that by (simp add: ms_def)
  show ?thesis using a b c d by blast
qed

theorem window_derivation_witness:
  "rate_t ex_rate \<noteq> [] \<and> sorted (rate_t ex_rate) \<and> hd (rate_t ex_rate) = 0
     \<and> last (rate_t ex_rate) = 250 * ms
     \<and> default_interval ex_rate None None = Inr (150, 250)
     \<and> map_sum id window
          (plot_network_activity (PopulationRateMonitor ex_rate) (SpikeMonitor ex_spikes)
             PyNone (PyList [0, 1]) None None 0) = Inr (150, 250)"
proof -
  have ne: "rate_t ex_rate \<noteq> []" by (simp add: ex_rate_def)
  have s: "sorted (rate_t ex_rate) \<and> hd (rate_t ex_rate) = 0 \<and> last (rate_t ex_rate) = 250 * ms"
    by (simp add: ex_rate_def ms_def)
  have call: "plot_network_activity (PopulationRateMonitor ex_rate) (SpikeMonitor ex_spikes)
             PyNone (PyList [0, 1]) None None 0 =
     Inr \<lparr>window = (150, 250), selection = [0, 1],
        raster = [(0, 0, [200]), (1, 1, [200])], raster_ylim = (0, 2),
        highlights = [], rate_curve = [(250, 7)], ax_voltage = None\<rparr>"
    by code_simp
  show ?thesis
    using window_derivation [OF ne, of None None "SpikeMonitor ex_spikes" PyNone "PyList [0, 1]" 0]
      ne s call
    by (simp add: ms_def)
qed


subsection \<open>Double-precision rounding\<close>

lemma two_powi_nat: "(2::rat) powi int k = of_int (2 ^ k)"
  by simp

lemma two_powi_neg_nat: "(2::rat) powi (- int k) = 1 / of_int (2 ^ k)"
  by (simp add: power_int_minus field_simps)

lemma bitlen_ge_one: "0 < n \<Longrightarrow> 1 \<le> bitlen n"
  using bitlen_eq_zero_iff [of n] bitlen_nonneg [of n] by linarith

lemma binary_exponent_bounds:
  assumes "x \<noteq> 0"
  shows "2 powi binary_exponent x \<le> \<bar>x\<bar> \<and> \<bar>x\<bar> < 2 powi (binary_exponent x + 1)"
proof (cases "1 \<le> \<bar>x\<bar>")
  case True
  define n where "n = \<lfloor>\<bar>x\<bar>\<rfloor>"
  have n: "0 < n" using True by (simp add: n_def)
  have e: "binary_exponent x = bitlen n - 1"
    using True by (simp add: binary_exponent_def n_def)
  from bitlen_bounds [OF n] have b1: "2 ^ nat (bitlen n - 1) \<le> n"
    and b2: "n + 1 \<le> 2 ^ nat (bitlen n)" by auto
  from bitlen_ge_one [OF n] have k: "bitlen n - 1 = int (nat (bitlen n - 1))"
    "bitlen n - 1 + 1 = int (nat (bitlen n))" by simp_all
  have "(2::rat) powi (bitlen n - 1) = of_int (2 ^ nat (bitlen n - 1))"
    by (subst k(1)) (rule two_powi_nat)
  also have "\<dots> \<le> of_int n" using b1 by (simp only: of_int_le_iff)
  also have "\<dots> \<le> \<bar>x\<bar>" by (simp add: n_def)
  finally have lo: "2 powi (bitlen n - 1) \<le> \<bar>x\<bar>" .
  have "\<bar>x\<bar> < of_int n + 1" unfolding n_def by linarith
  also have "\<dots> = of_int (n + 1)" by simp
  also have "\<dots> \<le> of_int (2 ^ nat (bitlen n))" using b2 by (simp only: of_int_le_iff)
  also have "\<dots> = (2::rat) powi (bitlen n - 1 + 1)"
    by (subst k(2)) (rule two_powi_nat [symmetric])
  finally have hi: "\<bar>x\<bar> < 2 powi (bitlen n - 1 + 1)" .
  show ?thesis unfolding e using lo hi by blast
next
  case False
  then have x1: "\<bar>x\<bar> < 1" by simp
  have x0: "0 < \<bar>x\<bar>" using assms by simp
  define y where "y = 1 / \<bar>x\<bar>"
  have y1: "1 < y" using x0 x1 by (simp add: y_def)
  define m where "m = \<lceil>y\<rceil> - 1"
  have my: "of_int m < y" and ym: "y \<le> of_int (m + 1)"
    unfolding m_def by (simp_all add: less_ceiling_iff [symmetric]) linarith+
  have m: "0 < m" using y1 unfolding m_def by (simp add: less_ceiling_iff)
  have e: "binary_exponent x = - bitlen m"
    using False by (simp add: binary_exponent_def m_def y_def)
  from bitlen_bounds [OF m] have b1: "2 ^ nat (bitlen m - 1) \<le> m"
    and b2: "m + 1 \<le> 2 ^ nat (bitlen m)" by auto
  from bitlen_ge_one [OF m] have k: "- bitlen m = - int (nat (bitlen m))"
    "- bitlen m + 1 = - int (nat (bitlen m - 1))" by simp_all
  have "y \<le> of_int (2 ^ nat (bitlen m))"
    using ym b2 by (meson of_int_le_iff order_trans)
  then have "1 / of_int (2 ^ nat (bitlen m)) \<le> \<bar>x\<bar>"
    using x0 unfolding y_def by (simp add: field_simps)
  then have lo: "2 powi (- bitlen m) \<le> \<bar>x\<bar>"
    by (subst k(1)) (simp only: two_powi_neg_nat)
  have "of_int (2 ^ nat (bitlen m - 1)) < y"
    using my b1 by (meson of_int_le_iff le_less_trans)
  then have "\<bar>x\<bar> < 1 / of_int (2 ^ nat (bitlen m - 1))"
    using x0 unfolding y_def by (simp add: field_simps)
  then have hi: "\<bar>x\<bar> < 2 powi (- bitlen m + 1)"
    by (subst k(2)) (simp only: two_powi_neg_nat)
  show ?thesis unfolding e using lo hi by blast
qed

lemma binary_exponent_unique:
  assumes "2 powi e \<le> \<bar>x\<bar>" "\<bar>x\<bar> < 2 powi (e + 1)"
  shows "binary_exponent x = e"
proof -
  have x: "x \<noteq> 0"
  proof
    assume "x = 0"
    with assms(1) have "(2::rat) powi e \<le> 0" by simp
    moreover have "0 < (2::rat) powi e" by simp
    ultimately show False by linarith
  qed
  from binary_exponent_bounds [OF x]
  have lo: "2 powi binary_exponent x \<le> \<bar>x\<bar>" and hi: "\<bar>x\<bar> < 2 powi (binary_exponent x + 1)"
    by blast+
  have "(2::rat) powi e < 2 powi (binary_exponent x + 1)" using assms(1) hi by simp
  then have a: "e < binary_exponent x + 1"
    using power_int_increasing [of "binary_exponent x + 1" e "2::rat"] by (cases "e < binary_exponent x + 1") auto
  have "(2::rat) powi binary_exponent x < 2 powi (e + 1)" using assms(2) lo by simp
  then have b: "binary_exponent x < e + 1"
    using power_int_increasing [of "e + 1" "binary_exponent x" "2::rat"] by (cases "binary_exponent x < e + 1") auto
  from a b show ?thesis by simp
qed

lemma round_half_even_of_int [simp]: "round_half_even (of_int z) = z"
  by (simp add: round_half_even_def)

lemma round_half_even_error: "\<bar>of_int (round_half_even y) - y\<bar> \<le> 1 / 2"
proof -
  have "of_int \<lfloor>y\<rfloor> \<le> y" "y < of_int \<lfloor>y\<rfloor> + 1" by linarith+
  then show ?thesis
    unfolding round_half_even_def Let_def by (auto simp: abs_le_iff) 
qed

lemma round_half_even_nonneg: "0 \<le> y \<Longrightarrow> 0 \<le> round_half_even y"
  unfolding round_half_even_def Let_def by (auto simp: le_floor_iff)

lemma two_powi_split_52: "(2::rat) powi e = 2 ^ 52 * 2 powi (e - 52)"
proof -
  have eq: "e = 52 + (e - 52)" by simp
  show ?thesis by (subst eq, subst power_int_add) simp_all
qed

lemma two_powi_split_53: "(2::rat) powi (e + 1) = 2 ^ 53 * 2 powi (e - 52)"
proof -
  have eq: "e + 1 = 53 + (e - 52)" by simp
  show ?thesis by (subst eq, subst power_int_add) simp_all
qed

lemma float64_scaled:
  assumes "x \<noteq> 0"
  shows "2 ^ 52 \<le> \<bar>x / 2 powi (binary_exponent x - 52)\<bar>
     \<and> \<bar>x / 2 powi (binary_exponent x - 52)\<bar> < 2 ^ 53"
proof -
  let ?e = "binary_exponent x"
  have p: "0 < (2::rat) powi (?e - 52)" by simp
  from binary_exponent_bounds [OF assms]
  have lo: "2 powi ?e \<le> \<bar>x\<bar>" and hi: "\<bar>x\<bar> < 2 powi (?e + 1)" by blast+
  note a = two_powi_split_52 [of ?e] and b = two_powi_split_53 [of ?e]
  have abs: "\<bar>x / 2 powi (?e - 52)\<bar> = \<bar>x\<bar> / 2 powi (?e - 52)"
    using p by (simp add: abs_divide)
  show ?thesis
    unfolding abs using lo hi p unfolding a b
    by (simp add: pos_le_divide_eq pos_divide_less_eq)
qed

lemma float64_representable:
  assumes "\<bar>m\<bar> < 2 ^ 53"
  shows "float64 (of_int m * 2 powi k) = of_int m * 2 powi k"
proof (cases "m = 0")
  case True
  then show ?thesis by (simp add: float64_def)
next
  case False
  let ?x = "rat_of_int m * 2 powi k"
  define j where "j = binary_exponent (rat_of_int m)"
  have m0: "rat_of_int m \<noteq> 0" using False by simp
  from binary_exponent_bounds [OF m0]
  have lo: "2 powi j \<le> \<bar>rat_of_int m\<bar>" and hi: "\<bar>rat_of_int m\<bar> < 2 powi (j + 1)"
    unfolding j_def by blast+
  have "1 \<le> \<bar>rat_of_int m\<bar>" using False by (simp flip: of_int_abs)
  with hi have "(2::rat) powi 0 < 2 powi (j + 1)" by simp
  then have j0: "0 \<le> j"
    using power_int_increasing [of "j + 1" 0 "2::rat"] by (cases "0 \<le> j") auto
  have "\<bar>rat_of_int m\<bar> < 2 powi 53"
    using assms by (simp flip: of_int_abs)
  with lo have "(2::rat) powi j < 2 powi 53" by simp
  then have j52: "j \<le> 52"
    using power_int_increasing [of 53 j "2::rat"] by (cases "j \<le> 52") auto
  have pk: "0 < (2::rat) powi k" by simp
  have "2 powi (j + k) \<le> \<bar>?x\<bar>" "\<bar>?x\<bar> < 2 powi (j + k + 1)"
    using lo hi pk
    by (simp_all add: abs_mult power_int_add add.assoc [symmetric] add.commute [of k 1])
  then have e: "binary_exponent ?x = j + k" by (rule binary_exponent_unique)
  have x0: "?x \<noteq> 0" using False by simp
  have "(2::rat) powi k = 2 powi (52 - j) * 2 powi (j + k - 52)"
    using power_int_add [of "2::rat" "52 - j" "j + k - 52"] by simp
  also have "(2::rat) powi (52 - j) = of_int (2 ^ nat (52 - j))"
    using j52 two_powi_nat [of "nat (52 - j)"] by simp
  finally have k: "(2::rat) powi k = of_int (2 ^ nat (52 - j)) * 2 powi (j + k - 52)" .
  have q: "?x / 2 powi (j + k - 52) = of_int (m * 2 ^ nat (52 - j))"
    by (subst k) simp
  show ?thesis
    unfolding float64_def Let_def e q using x0
    by (simp only: round_half_even_of_int if_False) (simp add: k)
qed

lemma float64_of_int: "\<bar>m\<bar> < 2 ^ 53 \<Longrightarrow> float64 (of_int m) = of_int m"
  using float64_representable [of m 0] by simp

lemma float64_of_nat: "n < 2 ^ 53 \<Longrightarrow> float64 (of_nat n) = of_nat n"
  using float64_of_int [of "int n"] by simp

lemma float64_eq_0_iff: "float64 x = 0 \<longleftrightarrow> x = 0"
proof (cases "x = 0")
  case True
  then show ?thesis by (simp add: float64_def)
next
  case False
  let ?y = "x / 2 powi (binary_exponent x - 52)"
  from float64_scaled [OF False] have "2 ^ 52 \<le> \<bar>?y\<bar>" by blast
  moreover have "\<bar>of_int (round_half_even ?y) - ?y\<bar> \<le> 1 / 2" by (rule round_half_even_error)
  ultimately have "rat_of_int (round_half_even ?y) \<noteq> 0"
  proof -
    assume lo: "2 ^ 52 \<le> \<bar>?y\<bar>" and err: "\<bar>of_int (round_half_even ?y) - ?y\<bar> \<le> 1 / 2"
    show ?thesis
    proof
      assume "rat_of_int (round_half_even ?y) = 0"
      with err have "\<bar>?y\<bar> \<le> 1 / 2" by simp
      moreover have "1 / 2 < (2::rat) ^ 52" by simp
      ultimately show False using lo by linarith
    qed
  qed
  then show ?thesis using False by (simp add: float64_def Let_def)
qed

lemma float64_nonneg: "0 \<le> x \<Longrightarrow> 0 \<le> float64 x"
  by (simp add: float64_def Let_def round_half_even_nonneg)

lemma float64_idem: "float64 (float64 x) = float64 x"
proof (cases "x = 0")
  case True
  then show ?thesis by (simp add: float64_def)
next
  case False
  let ?e = "binary_exponent x"
  let ?y = "x / 2 powi (?e - 52)"
  let ?r = "round_half_even ?y"
  have fx: "float64 x = of_int ?r * 2 powi (?e - 52)"
    using False by (simp add: float64_def Let_def)
  from float64_scaled [OF False] have "\<bar>?y\<bar> < 2 ^ 53" by blast
  moreover have "\<bar>of_int ?r - ?y\<bar> \<le> 1 / 2" by (rule round_half_even_error)
  ultimately have "\<bar>rat_of_int ?r\<bar> < 2 ^ 53 + 1" by linarith
  then have "rat_of_int \<bar>?r\<bar> < rat_of_int (2 ^ 53 + 1)" by simp
  then have "\<bar>?r\<bar> < 2 ^ 53 + 1" by (simp only: of_int_less_iff)
  then consider "\<bar>?r\<bar> < 2 ^ 53" | "?r = 2 ^ 53" | "?r = - (2 ^ 53)" by linarith
  then show ?thesis
  proof cases
    case 1
    then show ?thesis unfolding fx by (rule float64_representable)
  next
    case 2
    have "rat_of_int ?r * 2 powi (?e - 52) = of_int 1 * 2 powi (?e + 1)"
      unfolding 2 two_powi_split_53 by simp
    then show ?thesis unfolding fx using float64_representable [of 1 "?e + 1"] by simp
  next
    case 3
    have "rat_of_int ?r * 2 powi (?e - 52) = of_int (- 1) * 2 powi (?e + 1)"
      unfolding 3 two_powi_split_53 by simp
    then show ?thesis unfolding fx using float64_representable [of "- 1" "?e + 1"] by simp
  qed
qed

lemma butlast_upt_eq: "butlast [i..<j] = [i..<j - 1]"
  by (cases "i < j") (simp_all add: butlast_conv_take)

lemma slice_linspace_shape:
  assumes "2 \<le> num"
  shows "slice_1_m1 (butlast (map g [0..<num]) @ [z]) = map g [Suc 0..<num - 1]"
proof -
  have b: "butlast (map g [0..<num]) = map g [0..<num - 1]"
    by (simp add: map_butlast [symmetric] butlast_upt_eq)
  have ne: "map g [0..<num - 1] \<noteq> []" using assms by simp
  have "tl (map g [0..<num - 1] @ [z]) = map g [Suc 0..<num - 1] @ [z]"
    using ne by (simp add: map_tl [symmetric] tl_upt)
  then show ?thesis unfolding slice_1_m1_def b by simp
qed

lemma linspace_unit:
  assumes "0 < d" "Suc d < 2 ^ 53"
  shows "linspace 0 1 (Suc d) =
           butlast (map (\<lambda>i. float64 (rat_of_nat i * float64 (1 / rat_of_nat d))) [0..<Suc d])
             @ [1]"
proof -
  let ?step = "float64 (1 / rat_of_nat d)"
  have one: "float64 1 = 1" using float64_of_int [of 1] by simp
  have dv: "float64 (rat_of_nat d) = rat_of_nat d"
    using assms(2) by (intro float64_of_nat) simp
  have L: "linspace 0 1 (Suc d) =
             butlast (map (\<lambda>i. float64 (float64 (rat_of_nat i) * ?step)) [0..<Suc d]) @ [1]"
    using assms(1)
    by (simp add: linspace_def Let_def one dv float64_eq_0_iff float64_idem comp_def
          del: upt_Suc)
  have args: "map (\<lambda>i. float64 (float64 (rat_of_nat i) * ?step)) [0..<Suc d] =
              map (\<lambda>i. float64 (rat_of_nat i * ?step)) [0..<Suc d]"
  proof (rule map_cong [OF refl])
    fix i assume "i \<in> set [0..<Suc d]"
    then have "i < Suc d" by auto
    then have "i < 2 ^ 53" using assms(2) by (rule less_trans)
    then have "float64 (rat_of_nat i) = rat_of_nat i" by (rule float64_of_nat)
    then show "float64 (float64 (rat_of_nat i) * ?step) = float64 (rat_of_nat i * ?step)"
      by simp
  qed
  show ?thesis unfolding L args ..
qed

lemma highlighted_neurons_eq:
  assumes "0 < N" "N < 2 ^ 52" "n < 2 ^ 53"
  shows "slice_1_m1 (linspace 0 1 (nat (N + 2))) =
           map (\<lambda>i. float64 (rat_of_nat i * float64 (1 / rat_of_int (N + 1)))) [1..<nat N + 1]"
    and "highlighted_neurons n N =
           map (\<lambda>i. py_int (float64 (rat_of_nat n
                  * float64 (rat_of_nat i * float64 (1 / rat_of_int (N + 1))))))
             [1..<nat N + 1]"
proof -
  define d where "d = nat N + 1"
  have num: "nat (N + 2) = Suc d" and d: "0 < d" "Suc d < 2 ^ 53" "2 \<le> Suc d"
    using assms(1,2) by (simp_all add: d_def)
  have r: "rat_of_nat d = rat_of_int (N + 1)" using assms(1) by (simp add: d_def)
  have sl: "slice_1_m1 (linspace 0 1 (nat (N + 2))) =
          map (\<lambda>i. float64 (rat_of_nat i * float64 (1 / rat_of_nat d))) [Suc 0..<Suc d - 1]"
    unfolding num linspace_unit [OF d(1,2)] by (rule slice_linspace_shape [OF d(3)])
  show fr: "slice_1_m1 (linspace 0 1 (nat (N + 2))) =
           map (\<lambda>i. float64 (rat_of_nat i * float64 (1 / rat_of_int (N + 1)))) [1..<nat N + 1]"
    unfolding sl r by (simp add: d_def)
  have n: "float64 (rat_of_nat n) = rat_of_nat n" using assms(3) by (rule float64_of_nat)
  show "highlighted_neurons n N =
           map (\<lambda>i. py_int (float64 (rat_of_nat n
                  * float64 (rat_of_nat i * float64 (1 / rat_of_int (N + 1))))))
             [1..<nat N + 1]"
    unfolding highlighted_neurons_def Let_def fr n by (simp add: comp_def)
qed

lemma float64_quarters: "\<bar>m\<bar> < 2 ^ 53 \<Longrightarrow> float64 (rat_of_int m / 4) = rat_of_int m / 4"
  using float64_representable [of m "- 2"] by (simp add: power_int_minus)

lemma float64_halves: "\<bar>m\<bar> < 2 ^ 53 \<Longrightarrow> float64 (rat_of_int m / 2) = rat_of_int m / 2"
  using float64_representable [of m "- 1"] by (simp add: power_int_minus)

lemma floor_quarters: "\<lfloor>rat_of_int a / 4\<rfloor> = a div 4"
  using floor_divide_of_int_eq [of a 4, where ?'a = rat] by simp

lemma floor_halves: "\<lfloor>rat_of_int a / 2\<rfloor> = a div 2"
  using floor_divide_of_int_eq [of a 2, where ?'a = rat] by simp

lemma highlighted_neurons_three:
  assumes "n < 2 ^ 51"
  shows "slice_1_m1 (linspace 0 1 5) = [1 / 4, 1 / 2, 3 / 4]"
    and "highlighted_neurons n 3 = [int n div 4, int n div 2, 3 * int n div 4]"
proof -
  have f: "float64 (1 / 4) = 1 / 4" "float64 (1 / 2) = 1 / 2" "float64 (3 / 4) = 3 / 4"
    using float64_quarters [of 1] float64_halves [of 1] float64_quarters [of 3] by simp_all
  have n53: "n < 2 ^ 53" using assms by simp
  from highlighted_neurons_eq(1) [of 3 n] n53
  show fr: "slice_1_m1 (linspace 0 1 5) = [1 / 4, 1 / 2, 3 / 4]"
    by (simp add: upt_rec f)
  have b1: "\<bar>int n\<bar> < 2 ^ 53" and b3: "\<bar>3 * int n\<bar> < 2 ^ 53" using assms by simp_all
  have a1: "py_int (float64 (rat_of_nat n * (1 / 4))) = int n div 4"
  proof -
    have e: "rat_of_nat n * (1 / 4) = rat_of_int (int n) / 4" by simp
    have "float64 (rat_of_nat n * (1 / 4)) = rat_of_int (int n) / 4"
      unfolding e by (rule float64_quarters [OF b1])
    moreover have "0 \<le> rat_of_int (int n) / 4" by simp
    ultimately show ?thesis by (simp only: py_int_def if_True floor_quarters)
  qed
  have a2: "py_int (float64 (rat_of_nat n * (1 / 2))) = int n div 2"
  proof -
    have e: "rat_of_nat n * (1 / 2) = rat_of_int (int n) / 2" by simp
    have "float64 (rat_of_nat n * (1 / 2)) = rat_of_int (int n) / 2"
      unfolding e by (rule float64_halves [OF b1])
    moreover have "0 \<le> rat_of_int (int n) / 2" by simp
    ultimately show ?thesis by (simp only: py_int_def if_True floor_halves)
  qed
  have a3: "py_int (float64 (rat_of_nat n * (3 / 4))) = 3 * int n div 4"
  proof -
    have e: "rat_of_nat n * (3 / 4) = rat_of_int (3 * int n) / 4" by simp
    have "float64 (rat_of_nat n * (3 / 4)) = rat_of_int (3 * int n) / 4"
      unfolding e by (rule float64_quarters [OF b3])
    moreover have "0 \<le> rat_of_int (3 * int n) / 4" by simp
    ultimately show ?thesis by (simp only: py_int_def if_True floor_quarters)
  qed
  have n: "float64 (rat_of_nat n) = rat_of_nat n" using n53 by (rule float64_of_nat)
  have five: "nat (3 + 2) = 5" by simp
  show "highlighted_neurons n 3 = [int n div 4, int n div 2, 3 * int n div 4]"
    by (simp only: highlighted_neurons_def Let_def n five fr list.map a1 a2 a3)
qed

lemma linspace_length: "length (linspace start stop num) = num"
  by (simp add: linspace_def Let_def)

lemma highlighted_neurons_length: "length (highlighted_neurons n N) = nat (N + 2) - 2"
  by (simp add: highlighted_neurons_def Let_def slice_1_m1_def linspace_length)

lemma linspace_unit_nonneg:
  assumes "x \<in> set (linspace 0 1 num)"
  shows "0 \<le> x"
  using assms unfolding linspace_def Let_def
  by (auto simp: comp_def dest!: in_set_butlastD split: if_splits
        intro!: float64_nonneg mult_nonneg_nonneg divide_nonneg_nonneg)

lemma highlighted_neurons_nonneg:
  assumes "r \<in> set (highlighted_neurons n N)"
  shows "0 \<le> r"
proof -
  from assms obtain f where f: "f \<in> set (slice_1_m1 (linspace 0 1 (nat (N + 2))))"
    and r: "r = py_int (float64 (float64 (rat_of_nat n) * f))"
    by (auto simp: highlighted_neurons_def Let_def)
  from f have "f \<in> set (linspace 0 1 (nat (N + 2)))"
    unfolding slice_1_m1_def
    by (cases "linspace 0 1 (nat (N + 2))") (auto dest: in_set_butlastD)
  then have "0 \<le> f" by (rule linspace_unit_nonneg)
  then have "0 \<le> float64 (float64 (rat_of_nat n) * f)"
    by (intro float64_nonneg mult_nonneg_nonneg) simp_all
  then show ?thesis unfolding r py_int_def by simp
qed

subsection \<open>Selection, window and highlighted rows\<close>

lemma highlight_raster_rows:
  "highlight_raster tr w sel i idxs = Inr hs \<Longrightarrow> map fst hs = idxs"
  by (induction idxs arbitrary: i hs) (auto simp: py_bind_Inr)

lemma network_activity_highlights:
  assumes "network_activity rm sm vm idx t_min t_max N = Inr fig" "0 < N"
  shows "map fst (highlights fig) = highlighted_neurons (length (selection fig)) N"
  using assms unfolding network_activity_def Let_def
  by (auto simp: py_bind_Inr dest: highlight_raster_rows)

lemma network_activity_highlighting:
  assumes "select_spike_train_idx_list (spike_trains sm) vm idx = Inr sel"
    and "default_interval rm t_min t_max = Inr w"
    and "plot_raster (spike_trains sm) w sel 0 = Inr (rast, cnt)"
    and "0 < N" and "highlighted_neurons (length sel) N = rows"
    and "highlight_raster (spike_trains sm) w sel 0 rows = Inr hs"
    and "(case vm of None \<Rightarrow> Inr None
          | Some m \<Rightarrow> py_bind (plot_voltage_traces m w sel 0 rows) (\<lambda>ps. Inr (Some ps)))
           = Inr axv"
  shows "network_activity rm sm vm idx t_min t_max N =
           Inr \<lparr> window = w, selection = sel, raster = rast, raster_ylim = (0, cnt),
                 highlights = hs, rate_curve = plot_population_activity rm w,
                 ax_voltage = axv \<rparr>"
  using assms unfolding network_activity_def Let_def
  by (cases vm) (simp_all add: py_bind_def)

text \<open>
  Claim C2 fails as stated: the rows are the truncated double-precision products, which
  are not always the floors of the exact ones. With 7 spike trains and 6 highlights the
  fifth fraction is the double next below \<open>5 / 7\<close>, its product with 7 rounds to a double
  below 5, and the fifth row is 4.
\<close>

theorem highlighted_rows_counterexample:
  "highlighted_neurons 7 6 = [1, 2, 3, 4, 4, 6]
   \<and> map (\<lambda>i. \<lfloor>rat_of_nat i / rat_of_int (6 + 1) * rat_of_nat 7\<rfloor>) [1..<nat 6 + 1]
        = [1, 2, 3, 4, 5, 6]"
proof -
  have u: "[1..<nat 6 + 1] = [1, 2, 3, 4, 5, 6]" by code_simp
  have s: "float64 (1 / rat_of_int (6 + 1)) = 2573485501354569 / 18014398509481984"
    by code_simp
  have f: "float64 (rat_of_nat 1 * (2573485501354569 / 18014398509481984))
             = 2573485501354569 / 18014398509481984"
    "float64 (rat_of_nat 2 * (2573485501354569 / 18014398509481984))
             = 2573485501354569 / 9007199254740992"
    "float64 (rat_of_nat 3 * (2573485501354569 / 18014398509481984))
             = 7720456504063707 / 18014398509481984"
    "float64 (rat_of_nat 4 * (2573485501354569 / 18014398509481984))
             = 2573485501354569 / 4503599627370496"
    "float64 (rat_of_nat 5 * (2573485501354569 / 18014398509481984))
             = 3216856876693211 / 4503599627370496"
    "float64 (rat_of_nat 6 * (2573485501354569 / 18014398509481984))
             = 7720456504063707 / 9007199254740992"
    by code_simp+
  have r: "py_int (float64 (rat_of_nat 7 * (2573485501354569 / 18014398509481984))) = 1"
    "py_int (float64 (rat_of_nat 7 * (2573485501354569 / 9007199254740992))) = 2"
    "py_int (float64 (rat_of_nat 7 * (7720456504063707 / 18014398509481984))) = 3"
    "py_int (float64 (rat_of_nat 7 * (2573485501354569 / 4503599627370496))) = 4"
    "py_int (float64 (rat_of_nat 7 * (3216856876693211 / 4503599627370496))) = 4"
    "py_int (float64 (rat_of_nat 7 * (7720456504063707 / 9007199254740992))) = 6"
    by code_simp+
  have "(0::int) < 6" "(6::int) < 2 ^ 52" "(7::nat) < 2 ^ 53" by simp_all
  from highlighted_neurons_eq(2) [OF this]
  have "highlighted_neurons 7 6 = [1, 2, 3, 4, 4, 6]"
    by (simp only: u list.map s f r)
  moreover have "map (\<lambda>i. \<lfloor>rat_of_nat i / rat_of_int (6 + 1) * rat_of_nat 7\<rfloor>) [1..<nat 6 + 1]
        = [1, 2, 3, 4, 5, 6]"
    by code_simp
  ultimately show ?thesis by blast
qed

text \<open>
  Claim C2, amended. For a positive highlight count \<open>N\<close> (below \<open>2 ^ 52\<close>) and \<open>n\<close> selected
  spike trains (below \<open>2 ^ 53\<close>), the fractions are the doubles \<open>i * (1 / (N + 1))\<close> for
  \<open>i = 1, ..., N\<close>, both operations rounded (the inner values of
  \<open>linspace 0 1 (N + 2)\<close>), and the highlighted rows are the integer parts of the rounded
  products of \<open>n\<close> and the fractions; these are the rows every returned figure
  highlights. For three highlights the fractions are exactly 1/4, 1/2 and 3/4 and the
  rows are the floors of the exact products (for \<open>n\<close> below \<open>2 ^ 51\<close>); five trains give
  rows 1, 2, 3.
\<close>

theorem highlighted_rows:
  assumes "0 < N" "N < 2 ^ 52" "n < 2 ^ 53"
  shows "slice_1_m1 (linspace 0 1 (nat (N + 2))) =
           map (\<lambda>i. float64 (rat_of_nat i * float64 (1 / rat_of_int (N + 1)))) [1..<nat N + 1]
         \<and> highlighted_neurons n N =
             map (\<lambda>i. py_int (float64 (rat_of_nat n
                    * float64 (rat_of_nat i * float64 (1 / rat_of_int (N + 1))))))
               [1..<nat N + 1]
         \<and> (\<forall>r \<in> set (highlighted_neurons n N). 0 \<le> r)
         \<and> (plot_network_activity R S V I t_min t_max N = Inr fig \<longrightarrow>
              map fst (highlights fig) = highlighted_neurons (length (selection fig)) N)
         \<and> (N = 3 \<longrightarrow> slice_1_m1 (linspace 0 1 (nat (N + 2))) = [1 / 4, 1 / 2, 3 / 4])
         \<and> (N = 3 \<and> n < 2 ^ 51 \<longrightarrow>
              highlighted_neurons n N =
                [\<lfloor>1 / 4 * rat_of_nat n\<rfloor>, \<lfloor>1 / 2 * rat_of_nat n\<rfloor>, \<lfloor>3 / 4 * rat_of_nat n\<rfloor>])"
proof -
  note a = highlighted_neurons_eq [OF assms]
  have b: "\<forall>r \<in> set (highlighted_neurons n N). 0 \<le> r"
    by (auto dest: highlighted_neurons_nonneg)
  have c: "map fst (highlights fig) = highlighted_neurons (length (selection fig)) N"
    if "plot_network_activity R S V I t_min t_max N = Inr fig"
    using plot_network_activity_Inr [OF that] network_activity_highlights assms(1) by blast
  have d: "slice_1_m1 (linspace 0 1 (nat (N + 2))) = [1 / 4, 1 / 2, 3 / 4]" if "N = 3"
    using highlighted_neurons_three(1) [of 0] that by simp
  have fl: "\<lfloor>1 / 4 * rat_of_nat n\<rfloor> = int n div 4" "\<lfloor>1 / 2 * rat_of_nat n\<rfloor> = int n div 2"
    "\<lfloor>3 / 4 * rat_of_nat n\<rfloor> = 3 * int n div 4"
    using floor_quarters [of "int n"] floor_halves [of "int n"] floor_quarters [of "3 * int n"]
    by simp_all
  have e: "highlighted_neurons n N =
      [\<lfloor>1 / 4 * rat_of_nat n\<rfloor>, \<lfloor>1 / 2 * rat_of_nat n\<rfloor>, \<lfloor>3 / 4 * rat_of_nat n\<rfloor>]"
    if "N = 3 \<and> n < 2 ^ 51"
    unfolding fl using highlighted_neurons_three(2) [of n] that by simp
  show ?thesis using a b c d e by blast
qed

theorem highlighted_rows_witness:
  "(0::int) < 3 \<and> highlighted_neurons 5 3 = [1, 2, 3]
     \<and> map_sum id (map fst \<circ> highlights)
          (plot_network_activity (PopulationRateMonitor ex_rate) (SpikeMonitor ex_spikes5)
             PyNone (PyList [1, 2, 3, 4, 5]) None None 3) = Inr [1, 2, 3]"
proof -
  have h: "(0::int) < 3" "(3::int) < 2 ^ 52" "(5::nat) < 2 ^ 53" "(5::nat) < 2 ^ 51" by simp_all
  have len5: "length [1, 2, 3, 4, 5 :: int] = 5" by simp
  have rows: "highlighted_neurons (length [1, 2, 3, 4, 5 :: int]) 3 = [1, 2, 3]"
    unfolding len5 using highlighted_neurons_three(2) [OF h(4)] by simp
  have "network_activity ex_rate ex_spikes5 None (Some [1, 2, 3, 4, 5]) None None 3 =
      Inr \<lparr> window = (150, 250), selection = [1, 2, 3, 4, 5],
            raster = [(0, 1, [200]), (1, 2, [200]), (2, 3, []), (3, 4, [250]), (4, 5, [])],
            raster_ylim = (0, 5),
            highlights = [(1, ''r'', [200]), (2, ''k'', []), (3, ''k'', [250])],
            rate_curve = plot_population_activity ex_rate (150, 250),
            ax_voltage = None \<rparr>"
  proof (rule network_activity_highlighting [OF _ _ _ h(1) rows])
    show "select_spike_train_idx_list (spike_trains ex_spikes5) None (Some [1, 2, 3, 4, 5])
            = Inr [1, 2, 3, 4, 5]"
      by (simp add: select_spike_train_idx_list_def)
    show "default_interval ex_rate None None = Inr (150, 250)" by code_simp
    show "plot_raster (spike_trains ex_spikes5) (150, 250) [1, 2, 3, 4, 5] 0 =
            Inr ([(0, 1, [200]), (1, 2, [200]), (2, 3, []), (3, 4, [250]), (4, 5, [])], 5)"
      by code_simp
    show "highlight_raster (spike_trains ex_spikes5) (150, 250) [1, 2, 3, 4, 5] 0 [1, 2, 3] =
            Inr [(1, ''r'', [200]), (2, ''k'', []), (3, ''k'', [250])]"
      by code_simp
    show "(case None :: state_mon option of None \<Rightarrow> Inr None
           | Some m \<Rightarrow> py_bind
               (plot_voltage_traces m (150, 250) [1, 2, 3, 4, 5] 0 [1, 2, 3])
               (\<lambda>ps. Inr (Some ps))) = Inr None"
      by simp
  qed
  moreover have "plot_population_activity ex_rate (150, 250) = [(250, 7)]" by code_simp
  ultimately have call: "plot_network_activity (PopulationRateMonitor ex_rate)
      (SpikeMonitor ex_spikes5) PyNone (PyList [1, 2, 3, 4, 5]) None None 3 = Inr ex_fig5"
    by (simp add: plot_network_activity_def ex_fig5_def)
  have sel: "length (selection ex_fig5) = 5" "map fst (highlights ex_fig5) = [1, 2, 3]"
    by (simp_all add: ex_fig5_def)
  have fl: "\<lfloor>1 / 4 * rat_of_nat 5\<rfloor> = 1" "\<lfloor>1 / 2 * rat_of_nat 5\<rfloor> = 2"
    "\<lfloor>3 / 4 * rat_of_nat 5\<rfloor> = 3"
    by code_simp+
  from highlighted_rows [OF h(1,2,3), of "PopulationRateMonitor ex_rate"
      "SpikeMonitor ex_spikes5" PyNone "PyList [1, 2, 3, 4, 5]" None None ex_fig5] call h(4)
  have "highlighted_neurons 5 3 = [1, 2, 3]
      \<and> map fst (highlights ex_fig5) = highlighted_neurons (length (selection ex_fig5)) 3"
    unfolding fl by blast
  with call sel show ?thesis by simp
qed

lemma plot_raster_rows:
  "plot_raster tr w sel k = Inr r \<Longrightarrow>
     map (fst \<circ> snd) (fst r) = sel \<and> map fst (fst r) = [k..<k + length sel]
       \<and> snd r = k + length sel"
proof (induction sel arbitrary: k r)
  case Nil
  then show ?case by auto
next
  case (Cons a sel)
  from Cons.prems obtain train r' where
    r': "plot_raster tr w sel (Suc k) = Inr r'" and
    r: "r = ((k, a, get_spike_train_ts w train) # fst r', snd r')"
    by (auto simp: py_bind_Inr)
  from Cons.IH [OF r'] have ih: "map (fst \<circ> snd) (fst r') = sel"
    "map fst (fst r') = [Suc k..<Suc k + length sel]" "snd r' = Suc k + length sel"
    by blast+
  have u: "[k..<k + length (a # sel)] = k # [Suc k..<Suc k + length sel]"
    using upt_rec [of k "k + length (a # sel)"] by (simp del: upt_Suc)
  show ?case unfolding r u using ih by (simp add: comp_def del: upt_Suc)
qed

lemma network_activity_raster:
  assumes "network_activity rm sm vm idx t_min t_max N = Inr fig"
  shows "plot_raster (spike_trains sm) (window fig) (selection fig) 0
           = Inr (raster fig, snd (raster_ylim fig)) \<and> fst (raster_ylim fig) = 0"
  using assms unfolding network_activity_def Let_def
  by (auto simp: py_bind_Inr)

text \<open>
  Claim C3. With a voltage monitor and no index list, the selection is the first 500
  entries of the ascending sort of the monitor's recorded indices: the whole sorted list
  when it has at most 500 entries, exactly 500 otherwise, nothing raised, and every
  returned figure is drawn from it. With neither a voltage monitor nor an index list the
  sort of the spike-train keys raises AxisError, and so does the call: the selection of
  all keys that the claim, the comment and the docstring describe is never computed.
\<close>

theorem derived_selection:
  "select_spike_train_idx_list trains (Some m) None = Inr (take 500 (sort (recorded m)))
   \<and> sorted (take 500 (sort (recorded m)))
   \<and> (length (recorded m) \<le> 500 \<longrightarrow>
        select_spike_train_idx_list trains (Some m) None = Inr (sort (recorded m)))
   \<and> (500 < length (recorded m) \<longrightarrow> length (take 500 (sort (recorded m))) = 500)
   \<and> (plot_network_activity R S (StateMonitor m) PyNone t_min t_max N = Inr fig \<longrightarrow>
        selection fig = take 500 (sort (recorded m)))
   \<and> select_spike_train_idx_list trains None None = Inl AxisError
   \<and> plot_network_activity (PopulationRateMonitor rm) (SpikeMonitor sm) PyNone PyNone
        t_min t_max N = Inl AxisError"
proof -
  have a: "select_spike_train_idx_list trains (Some m) None = Inr (take 500 (sort (recorded m)))"
    for trains
    by (simp add: select_spike_train_idx_list_def py_bind_def)
  have b: "sorted (take 500 (sort (recorded m)))" by (simp add: sorted_wrt_take)
  have c: "select_spike_train_idx_list trains (Some m) None = Inr (sort (recorded m))"
    if "length (recorded m) \<le> 500"
    unfolding a using that by simp
  have d: "length (take 500 (sort (recorded m))) = 500" if "500 < length (recorded m)"
    using that by simp
  have e: "selection fig = take 500 (sort (recorded m))"
    if "plot_network_activity R S (StateMonitor m) PyNone t_min t_max N = Inr fig"
  proof -
    from plot_network_activity_Inr [OF that] obtain rm sm where
      na: "network_activity rm sm (Some m) None t_min t_max N = Inr fig"
      by auto
    from network_activity_selection [OF na] show ?thesis unfolding a by simp
  qed
  have f: "select_spike_train_idx_list trains None None = Inl AxisError" for trains
    by (simp add: select_spike_train_idx_list_def numpy_sort_dict_keys_def py_bind_def)
  have g: "plot_network_activity (PopulationRateMonitor rm) (SpikeMonitor sm) PyNone PyNone
        t_min t_max N = Inl AxisError"
    by (simp add: plot_network_activity_def network_activity_def f py_bind_def)
  show ?thesis using a b c d e f g by blast
qed

theorem derived_selection_witness:
  "map_sum id selection
     (plot_network_activity (PopulationRateMonitor ex_rate) (SpikeMonitor ex_spikes_unordered)
        (StateMonitor ex_state) PyNone (Some 0) (Some (2 * ms)) 0) = Inr [0, 1, 2]
   \<and> select_spike_train_idx_list [] (Some \<lparr>state_t = [], recorded = [2, 0, 1], v = []\<rparr>) None
        = Inr [0, 1, 2]
   \<and> length (recorded \<lparr>state_t = [], recorded = [0..500], v = []\<rparr>) = 501
   \<and> select_spike_train_idx_list [] (Some \<lparr>state_t = [], recorded = [0..500], v = []\<rparr>) None
        = Inr [0..499]"
proof -
  have call: "plot_network_activity (PopulationRateMonitor ex_rate)
      (SpikeMonitor ex_spikes_unordered) (StateMonitor ex_state) PyNone (Some 0) (Some (2 * ms)) 0
        = Inr (ex_fig_voltage\<lparr>highlights := []\<rparr>)"
    by code_simp
  have rec: "take 500 (sort (recorded ex_state)) = [0, 1, 2]" by code_simp
  from derived_selection [of "[]" ex_state "PopulationRateMonitor ex_rate"
      "SpikeMonitor ex_spikes_unordered" "Some 0" "Some (2 * ms)" 0
      "ex_fig_voltage\<lparr>highlights := []\<rparr>"] call rec
  have one: "map_sum id selection
     (plot_network_activity (PopulationRateMonitor ex_rate) (SpikeMonitor ex_spikes_unordered)
        (StateMonitor ex_state) PyNone (Some 0) (Some (2 * ms)) 0) = Inr [0, 1, 2]"
    by simp
  have small: "take 500 (sort [2, 0, 1 :: int]) = [0, 1, 2]" by code_simp
  from derived_selection [of "[]" "\<lparr>state_t = [], recorded = [2, 0, 1], v = []\<rparr>"] small
  have two: "select_spike_train_idx_list [] (Some \<lparr>state_t = [], recorded = [2, 0, 1], v = []\<rparr>)
      None = Inr [0, 1, 2]"
    by simp
  have len: "length (recorded \<lparr>state_t = [], recorded = [0..500], v = []\<rparr>) = 501" by simp
  have big: "take 500 (sort [0..500 :: int]) = [0..499]" by code_simp
  from derived_selection [of "[]" "\<lparr>state_t = [], recorded = [0..500], v = []\<rparr>"] big
  have three: "select_spike_train_idx_list [] (Some \<lparr>state_t = [], recorded = [0..500], v = []\<rparr>)
      None = Inr [0..499]"
    by simp
  show ?thesis using one two len three by blast
qed

text \<open>
  Claim C10. An explicit index list is the selection as it stands: not sorted and not
  truncated, whatever its length. The raster of every returned figure has one row per
  entry, in the order of the list, numbered from 0.
\<close>

theorem explicit_selection:
  "select_spike_train_idx_list trains vm (Some l) = Inr l
   \<and> (plot_network_activity R S V (PyList l) t_min t_max N = Inr fig \<longrightarrow>
        selection fig = l \<and> map (fst \<circ> snd) (raster fig) = l
        \<and> map fst (raster fig) = [0..<length l] \<and> raster_ylim fig = (0, length l))"
proof -
  have a: "select_spike_train_idx_list trains vm (Some l) = Inr l" for trains vm
    by (simp add: select_spike_train_idx_list_def)
  have b: "selection fig = l \<and> map (fst \<circ> snd) (raster fig) = l
        \<and> map fst (raster fig) = [0..<length l] \<and> raster_ylim fig = (0, length l)"
    if "plot_network_activity R S V (PyList l) t_min t_max N = Inr fig"
  proof -
    from plot_network_activity_Inr [OF that] obtain rm sm vm' where
      na: "network_activity rm sm vm' (Some l) t_min t_max N = Inr fig"
      by auto
    have sel: "selection fig = l" using network_activity_selection [OF na] a by simp
    from network_activity_raster [OF na] plot_raster_rows
    have "map (fst \<circ> snd) (raster fig) = selection fig
        \<and> map fst (raster fig) = [0..<length (selection fig)]
        \<and> snd (raster_ylim fig) = length (selection fig) \<and> fst (raster_ylim fig) = 0"
      by fastforce
    then show ?thesis using sel by (simp add: prod_eq_iff)
  qed
  show ?thesis using a b by blast
qed

theorem explicit_selection_witness:
  "map_sum id selection
     (plot_network_activity (PopulationRateMonitor ex_rate) (SpikeMonitor ex_spikes5)
        PyNone (PyList [5, 1, 3]) None None 0) = Inr [5, 1, 3]
   \<and> select_spike_train_idx_list [] None (Some (rev [0..500])) = Inr (rev [0..500])
   \<and> length (rev [0..500 :: int]) = 501"
proof -
  have call: "plot_network_activity (PopulationRateMonitor ex_rate) (SpikeMonitor ex_spikes5)
        PyNone (PyList [5, 1, 3]) None None 0 = Inr ex_fig_explicit"
    by code_simp
  have sel: "selection ex_fig_explicit = [5, 1, 3]" by (simp add: ex_fig_explicit_def)
  from explicit_selection [of "[]" None "[5, 1, 3]" "PopulationRateMonitor ex_rate"
      "SpikeMonitor ex_spikes5" PyNone None None 0 ex_fig_explicit] call
  have one: "map_sum id selection
     (plot_network_activity (PopulationRateMonitor ex_rate) (SpikeMonitor ex_spikes5)
        PyNone (PyList [5, 1, 3]) None None 0) = Inr [5, 1, 3]"
    by simp
  from explicit_selection [of "[]" None "rev [0..500]"]
  have two: "select_spike_train_idx_list [] None (Some (rev [0..500])) = Inr (rev [0..500])"
    by blast
  show ?thesis using one two by simp
qed

subsection \<open>The voltage and current panels\<close>

lemma getitem_first: "xs \<noteq> [] \<Longrightarrow> getitem xs 0 = Inr (hd xs)"
  by (cases xs) (simp_all add: getitem_def)

lemma getitem_last: "xs \<noteq> [] \<Longrightarrow> getitem xs (- 1) = Inr (last xs)"
proof -
  assume ne: "xs \<noteq> []"
  then have "nat (int (length xs) + - 1) = length xs - 1" by (cases xs) simp_all
  with ne show ?thesis by (simp add: getitem_def last_conv_nth)
qed

lemma voltage_panel_range_eq:
  "v0 \<noteq> [] \<Longrightarrow>
     voltage_panel_range v0 thr =
       Inr (Min (set v0), case thr of None \<Rightarrow> Max (set v0) | Some th \<Rightarrow> max (Max (set v0)) th)"
  by (simp add: voltage_panel_range_def py_bind_def py_max_Max py_min_Min)

lemma plot_voltage_and_current_traces_result:
  assumes "state_t vm \<noteq> []" "state_getitem_v vm 0 = Inr v0" "v0 \<noteq> []"
  shows "plot_voltage_and_current_traces (StateMonitor vm) (TimedArray cur) title thr shw loc =
     Inr \<lparr> current_curve = zip (map (\<lambda>x. x / ms) (state_t vm)) (map cur (state_t vm)),
           current_ylim = current_panel_ylim (Min (set (map cur (state_t vm))))
                            (Max (set (map cur (state_t vm)))),
           current_min_max = (Min (set (map cur (state_t vm))), Max (set (map cur (state_t vm)))),
           voltage_curve = zip (map (\<lambda>x. x / ms) (state_t vm)) (map (\<lambda>x. x / mV) v0),
           threshold_line =
             (case thr of None \<Rightarrow> None
              | Some th \<Rightarrow> Some ((hd (state_t vm) / ms, last (state_t vm) / ms),
                                (th / mV, th / mV))),
           voltage_ylim = voltage_panel_ylim
             (Min (set v0), case thr of None \<Rightarrow> Max (set v0) | Some th \<Rightarrow> max (Max (set v0)) th),
           voltage_min_max =
             (Min (set v0), case thr of None \<Rightarrow> Max (set v0) | Some th \<Rightarrow> max (Max (set v0)) th),
           legend = (case thr of None \<Rightarrow> None
                     | Some th \<Rightarrow> Some ([''vm'', ''firing threshold''], loc)),
           suptitle = title, shown = shw \<rparr>"
proof -
  have c: "map cur (state_t vm) \<noteq> []" and t: "map (\<lambda>x. x / ms) (state_t vm) \<noteq> []"
    using assms(1) by simp_all
  have line: "threshold_reference_line (map (\<lambda>x. x / ms) (state_t vm)) thr =
      Inr (case thr of None \<Rightarrow> None
           | Some th \<Rightarrow> Some ((hd (state_t vm) / ms, last (state_t vm) / ms),
                             (th / mV, th / mV)))"
    unfolding threshold_reference_line_def
    using getitem_first [OF t] getitem_last [OF t] assms(1)
    by (simp add: py_bind_def hd_map last_map split: option.splits)
  show ?thesis
    unfolding plot_voltage_and_current_traces_def Let_def
    using py_max_Max [OF c] py_min_Min [OF c] assms(2) line voltage_panel_range_eq [OF assms(3)]
    by (simp add: py_bind_def)
qed

lemma Min_le_Max_list:
  fixes xs :: "rat list"
  shows "xs \<noteq> [] \<Longrightarrow> Min (set xs) \<le> Max (set xs)"
proof -
  assume "xs \<noteq> []"
  then have "Min (set xs) \<le> last xs" and "last xs \<le> Max (set xs)" by simp_all
  then show ?thesis by (rule order_trans)
qed

text \<open>
  Claim C6. A call on a voltage monitor with samples, neuron 0 recorded, returns a figure
  whose current panel has no y-limits set when the sampled current is flat (the margin
  is then 0), and otherwise the limits \<open>min - 1.05 (max - min)\<close> and
  \<open>max + 1.05 (max - min)\<close>, the lower one strictly below the upper one.
\<close>

theorem current_panel_padding:
  assumes "state_t vm \<noteq> []" "state_getitem_v vm 0 = Inr v0" "v0 \<noteq> []"
  shows "\<exists>fig. plot_voltage_and_current_traces (StateMonitor vm) (TimedArray cur) title thr
                 shw loc = Inr fig
     \<and> current_min_max fig =
         (Min (set (map cur (state_t vm))), Max (set (map cur (state_t vm))))
     \<and> (Max (set (map cur (state_t vm))) = Min (set (map cur (state_t vm))) \<longrightarrow>
          current_margin (fst (current_min_max fig)) (snd (current_min_max fig)) = 0
          \<and> current_ylim fig = None)
     \<and> (Max (set (map cur (state_t vm))) \<noteq> Min (set (map cur (state_t vm))) \<longrightarrow>
          current_ylim fig =
            Some (Min (set (map cur (state_t vm)))
                    - 105 / 100 * (Max (set (map cur (state_t vm)))
                                    - Min (set (map cur (state_t vm)))),
                  Max (set (map cur (state_t vm)))
                    + 105 / 100 * (Max (set (map cur (state_t vm)))
                                    - Min (set (map cur (state_t vm)))))
          \<and> fst (the (current_ylim fig)) < snd (the (current_ylim fig)))"
proof -
  let ?mn = "Min (set (map cur (state_t vm)))" and ?mx = "Max (set (map cur (state_t vm)))"
  have le: "?mn \<le> ?mx" using assms(1) by (intro Min_le_Max_list) simp
  have flat: "current_margin ?mn ?mx = 0 \<and> current_panel_ylim ?mn ?mx = None" if "?mx = ?mn"
    using that by (simp add: current_panel_ylim_def current_margin_def)
  have pad: "current_panel_ylim ?mn ?mx =
               Some (?mn - 105 / 100 * (?mx - ?mn), ?mx + 105 / 100 * (?mx - ?mn))
             \<and> ?mn - 105 / 100 * (?mx - ?mn) < ?mx + 105 / 100 * (?mx - ?mn)" if "?mx \<noteq> ?mn"
  proof -
    from that le have lt: "?mn < ?mx" by simp
    then have m: "0 < 105 / 100 * (?mx - ?mn)" by simp
    then have "?mn - 105 / 100 * (?mx - ?mn) < ?mx + 105 / 100 * (?mx - ?mn)"
      using lt by linarith
    with m show ?thesis
      by (simp add: current_panel_ylim_def current_margin_def amp_def)
  qed
  show ?thesis
    unfolding plot_voltage_and_current_traces_result [OF assms]
    using flat pad by auto
qed

theorem current_panel_padding_witness:
  "map_sum id current_ylim
     (plot_voltage_and_current_traces (StateMonitor ex_state) (TimedArray ex_flat_current)
        None None False 1) = Inr None
   \<and> map_sum id current_ylim
     (plot_voltage_and_current_traces (StateMonitor ex_state) (TimedArray ex_ramp_current)
        None None False 1) = Inr (Some (- 21 / 10, 41 / 10))"
proof -
  have t: "state_t ex_state \<noteq> []" by (simp add: ex_state_def)
  have g: "state_getitem_v ex_state 0 = Inr [0, 1 / 100, 1 / 200]"
    by (simp add: ex_state_def state_getitem_v_def)
  have n: "[0, 1 / 100, 1 / 200 :: rat] \<noteq> []" by simp
  have flat: "Max (set (map ex_flat_current (state_t ex_state)))
                = Min (set (map ex_flat_current (state_t ex_state)))"
    by (simp add: ex_state_def ex_flat_current_def)
  have ramp: "Max (set (map ex_ramp_current (state_t ex_state))) = 2"
    "Min (set (map ex_ramp_current (state_t ex_state))) = 0"
    by (simp_all add: ex_state_def ex_ramp_current_def)
  from current_panel_padding [OF t g n, of ex_flat_current None None False 1] flat
  have one: "map_sum id current_ylim
     (plot_voltage_and_current_traces (StateMonitor ex_state) (TimedArray ex_flat_current)
        None None False 1) = Inr None"
    by auto
  from current_panel_padding [OF t g n, of ex_ramp_current None None False 1] ramp
  have two: "map_sum id current_ylim
     (plot_voltage_and_current_traces (StateMonitor ex_state) (TimedArray ex_ramp_current)
        None None False 1) = Inr (Some (- 21 / 10, 41 / 10))"
    by auto
  show ?thesis using one two by blast
qed

text \<open>
  Claim C5 fails as stated: only the upper bound of the voltage range follows the
  threshold. With neuron 0 between 0 and 10 mV and a threshold of -5 mV, the y-range is
  \<open>(-0.5, 10.5)\<close> mV, which does not contain -5.
\<close>

theorem threshold_below_range_counterexample:
  "map_sum id voltage_ylim
     (plot_voltage_and_current_traces (StateMonitor ex_state) (TimedArray ex_flat_current)
        None (Some (- 5 * mV)) False 1) = Inr (- 1 / 2, 21 / 2)
   \<and> \<not> (- 1 / 2 \<le> (- 5 * mV) / mV)"
proof -
  have "plot_voltage_and_current_traces (StateMonitor ex_state) (TimedArray ex_flat_current)
        None (Some (- 5 * mV)) False 1 =
     Inr \<lparr> current_curve = [(0, 3), (1, 3), (2, 3)], current_ylim = None,
           current_min_max = (3, 3),
           voltage_curve = [(0, 0), (1, 10), (2, 5)],
           threshold_line = Some ((0, 2), (- 5, - 5)),
           voltage_ylim = (- 1 / 2, 21 / 2),
           voltage_min_max = (0, 1 / 100),
           legend = Some ([''vm'', ''firing threshold''], 1),
           suptitle = None, shown = False \<rparr>"
    by code_simp
  then show ?thesis by (simp add: mV_def)
qed

text \<open>
  Claim C5, amended. A call with a firing threshold \<open>th\<close>, on a voltage monitor with
  samples and neuron 0 recorded, returns a figure whose voltage y-range has the upper
  bound \<open>max (voltage max) th\<close> plus 5 percent of the distance from the voltage minimum to
  that maximum, and the lower bound the voltage minimum minus the same margin. The
  threshold is never above the range, it is inside the range exactly when it is not
  below that lower bound (so whenever it is at least the voltage minimum), and above the
  voltage maximum the upper bound is the threshold plus its 5 percent margin. The dashed
  threshold line and the legend are part of the figure.
\<close>

theorem voltage_range_with_threshold:
  assumes "state_t vm \<noteq> []" "state_getitem_v vm 0 = Inr v0" "v0 \<noteq> []"
  shows "\<exists>fig. plot_voltage_and_current_traces (StateMonitor vm) (TimedArray cur) title
                 (Some th) shw loc = Inr fig
     \<and> voltage_ylim fig =
         ((Min (set v0) - 5 / 100 * (max (Max (set v0)) th - Min (set v0))) / mV,
          (max (Max (set v0)) th + 5 / 100 * (max (Max (set v0)) th - Min (set v0))) / mV)
     \<and> th / mV \<le> snd (voltage_ylim fig)
     \<and> (Max (set v0) < th \<longrightarrow>
          snd (voltage_ylim fig) = (th + 5 / 100 * (th - Min (set v0))) / mV
          \<and> fst (voltage_ylim fig) < th / mV \<and> th / mV < snd (voltage_ylim fig))
     \<and> (fst (voltage_ylim fig) \<le> th / mV \<longleftrightarrow>
          Min (set v0) - 5 / 100 * (max (Max (set v0)) th - Min (set v0)) \<le> th)
     \<and> (Min (set v0) \<le> th \<longrightarrow> fst (voltage_ylim fig) \<le> th / mV)
     \<and> threshold_line fig =
         Some ((hd (state_t vm) / ms, last (state_t vm) / ms), (th / mV, th / mV))
     \<and> legend fig = Some ([''vm'', ''firing threshold''], loc)"
proof -
  let ?mn = "Min (set v0)" and ?mx = "max (Max (set v0)) th"
  let ?mg = "5 / 100 * (?mx - ?mn)"
  have le: "?mn \<le> Max (set v0)" using assms(3) by (rule Min_le_Max_list)
  then have ge: "0 \<le> ?mg" by simp
  have yl: "voltage_panel_ylim (?mn, ?mx) = ((?mn - ?mg) / mV, (?mx + ?mg) / mV)"
    by (simp add: voltage_panel_ylim_def Let_def)
  have up: "th \<le> ?mx + ?mg" using ge by linarith
  have above: "?mx + ?mg = th + 5 / 100 * (th - ?mn) \<and> ?mn - ?mg < th \<and> th < ?mx + ?mg"
    if "Max (set v0) < th"
  proof -
    from that have mx: "?mx = th" by simp
    from that le have lt: "?mn < th" by simp
    then have pos: "0 < 5 / 100 * (th - ?mn)" by simp
    have "?mn - 5 / 100 * (th - ?mn) < th" using lt pos by linarith
    moreover have "th < th + 5 / 100 * (th - ?mn)" using pos by linarith
    ultimately show ?thesis unfolding mx by simp
  qed
  have inside: "?mn - ?mg \<le> th" if "?mn \<le> th"
    using that ge by linarith
  have pos: "0 < mV" by (simp add: mV_def)
  have f1: "th / mV \<le> (?mx + ?mg) / mV"
    using up pos by (simp only: divide_le_cancel) simp
  have f2: "(?mx + ?mg) / mV = (th + 5 / 100 * (th - ?mn)) / mV
      \<and> (?mn - ?mg) / mV < th / mV \<and> th / mV < (?mx + ?mg) / mV" if "Max (set v0) < th"
  proof -
    from above [OF that] have a1: "?mx + ?mg = th + 5 / 100 * (th - ?mn)"
      and a2: "?mn - ?mg < th" and a3: "th < ?mx + ?mg"
      by blast+
    have "(?mx + ?mg) / mV = (th + 5 / 100 * (th - ?mn)) / mV" by (simp only: a1)
    moreover have "(?mn - ?mg) / mV < th / mV" using a2 pos by (rule divide_strict_right_mono)
    moreover have "th / mV < (?mx + ?mg) / mV" using a3 pos by (rule divide_strict_right_mono)
    ultimately show ?thesis by blast
  qed
  have f3: "((?mn - ?mg) / mV \<le> th / mV) = (?mn - ?mg \<le> th)"
    using pos by (simp only: divide_le_cancel) simp
  have f4: "(?mn - ?mg) / mV \<le> th / mV" if "?mn \<le> th"
    using inside [OF that] f3 by blast
  have res: "plot_voltage_and_current_traces (StateMonitor vm) (TimedArray cur) title
                 (Some th) shw loc = Inr fig \<Longrightarrow>
      voltage_ylim fig = ((?mn - ?mg) / mV, (?mx + ?mg) / mV)
      \<and> threshold_line fig =
         Some ((hd (state_t vm) / ms, last (state_t vm) / ms), (th / mV, th / mV))
      \<and> legend fig = Some ([''vm'', ''firing threshold''], loc)" for fig
    unfolding plot_voltage_and_current_traces_result [OF assms] yl [symmetric] by auto
  obtain fig where call: "plot_voltage_and_current_traces (StateMonitor vm) (TimedArray cur) title
                 (Some th) shw loc = Inr fig"
    unfolding plot_voltage_and_current_traces_result [OF assms] by blast
  note r = res [OF call]
  have "voltage_ylim fig = ((?mn - ?mg) / mV, (?mx + ?mg) / mV)
     \<and> th / mV \<le> snd (voltage_ylim fig)
     \<and> (Max (set v0) < th \<longrightarrow>
          snd (voltage_ylim fig) = (th + 5 / 100 * (th - ?mn)) / mV
          \<and> fst (voltage_ylim fig) < th / mV \<and> th / mV < snd (voltage_ylim fig))
     \<and> (fst (voltage_ylim fig) \<le> th / mV \<longleftrightarrow> ?mn - ?mg \<le> th)
     \<and> (?mn \<le> th \<longrightarrow> fst (voltage_ylim fig) \<le> th / mV)"
    using r f1 f2 f3 f4 by (simp only: fst_conv snd_conv) blast
  with r call show ?thesis by blast
qed

theorem voltage_range_with_threshold_witness:
  "map_sum id voltage_ylim
     (plot_voltage_and_current_traces (StateMonitor ex_state) (TimedArray ex_flat_current)
        None (Some (20 * mV)) False 1) = Inr (- 1, 21)
   \<and> map_sum id legend
     (plot_voltage_and_current_traces (StateMonitor ex_state) (TimedArray ex_flat_current)
        None (Some (20 * mV)) False 1) = Inr (Some ([''vm'', ''firing threshold''], 1))"
proof -
  have t: "state_t ex_state \<noteq> []" by (simp add: ex_state_def)
  have g: "state_getitem_v ex_state 0 = Inr [0, 1 / 100, 1 / 200]"
    by (simp add: ex_state_def state_getitem_v_def)
  have n: "[0, 1 / 100, 1 / 200 :: rat] \<noteq> []" by simp
  have m: "Max (set [0, 1 / 100, 1 / 200 :: rat]) = 1 / 100"
    "Min (set [0, 1 / 100, 1 / 200 :: rat]) = 0"
    by simp_all
  from voltage_range_with_threshold [OF t g n, of ex_flat_current None "20 * mV" False 1]
  show ?thesis unfolding m by (auto simp: mV_def)
qed

subsection \<open>The ISI histogram\<close>

text \<open>
  Claim C4. Whatever the statistics helper returns for the spike monitor, the histogram
  is drawn over exactly those of its inter-spike intervals (in ms) that are at most the
  cutoff, in their order, while the CV of the title is the helper's CV for the whole
  monitor: it does not depend on the cutoff. For the intervals 1, 2, 3 and 150 ms and a
  cutoff of 100 ms the histogram data are 1, 2, 3.
\<close>

theorem isi_cutoff_filters_display_only:
  "hist_data (plot_ISI_distribution stats_of sm bins cutoff) =
      filter (\<lambda>x. x \<le> cutoff / ms) (map (\<lambda>x. x / ms) (all_ISI (stats_of sm)))
   \<and> set (hist_data (plot_ISI_distribution stats_of sm bins cutoff)) =
      {x / ms | x. x \<in> set (all_ISI (stats_of sm)) \<and> x \<le> cutoff}
   \<and> title_CV (plot_ISI_distribution stats_of sm bins cutoff) = CV (stats_of sm)
   \<and> title_CV (plot_ISI_distribution stats_of sm bins cutoff) =
      title_CV (plot_ISI_distribution stats_of sm bins cutoff')
   \<and> (all_ISI (stats_of sm) = [1 * ms, 2 * ms, 3 * ms, 150 * ms] \<longrightarrow>
        hist_data (plot_ISI_distribution stats_of sm bins (100 * ms)) = [1, 2, 3])"
proof -
  have pos: "0 < ms" by (simp add: ms_def)
  have a: "hist_data (plot_ISI_distribution stats_of sm bins c) =
      filter (\<lambda>x. x \<le> c / ms) (map (\<lambda>x. x / ms) (all_ISI (stats_of sm)))" for c
    by (simp add: plot_ISI_distribution_def Let_def)
  have b: "set (hist_data (plot_ISI_distribution stats_of sm bins cutoff)) =
      {x / ms | x. x \<in> set (all_ISI (stats_of sm)) \<and> x \<le> cutoff}"
    unfolding a using pos by (auto simp: divide_le_cancel)
  have c: "title_CV (plot_ISI_distribution stats_of sm bins c) = CV (stats_of sm)" for c
    by (simp add: plot_ISI_distribution_def Let_def)
  have d: "hist_data (plot_ISI_distribution stats_of sm bins (100 * ms)) = [1, 2, 3]"
    if "all_ISI (stats_of sm) = [1 * ms, 2 * ms, 3 * ms, 150 * ms]"
    unfolding a that by (simp add: ms_def)
  show ?thesis using a b c d by simp
qed

theorem isi_cutoff_filters_display_only_witness:
  "all_ISI (ex_stats ex_spikes) = [1 * ms, 2 * ms, 3 * ms, 150 * ms]
   \<and> hist_data (plot_ISI_distribution ex_stats ex_spikes 50 (100 * ms)) = [1, 2, 3]
   \<and> title_CV (plot_ISI_distribution ex_stats ex_spikes 50 (100 * ms)) = CV (ex_stats ex_spikes)"
proof -
  have h: "all_ISI (ex_stats ex_spikes) = [1 * ms, 2 * ms, 3 * ms, 150 * ms]"
    by (simp add: ex_stats_def ms_def)
  from isi_cutoff_filters_display_only [of ex_stats ex_spikes 50 "100 * ms" "100 * ms"] h
  show ?thesis by blast
qed

subsection \<open>Validation and exceptions of plot_network_activity\<close>

lemma py_bind_Inl:
  "py_bind m f = Inl e \<longleftrightarrow> m = Inl e \<or> (\<exists>x. m = Inr x \<and> f x = Inl e)"
  by (cases m) (simp_all add: py_bind_def)

lemma py_max_Inl: "py_max xs = Inl e \<Longrightarrow> e = ValueError"
  by (cases xs) simp_all

lemma getitem_Inl: "getitem xs i = Inl e \<Longrightarrow> e = IndexError"
  by (simp add: getitem_def split: if_splits)

lemma dict_getitem_Inl: "dict_getitem d k = Inl e \<Longrightarrow> e = KeyError"
  by (simp add: dict_getitem_def split: option.splits)

lemma state_getitem_v_Inl: "state_getitem_v m i = Inl e \<Longrightarrow> e = IndexError"
  by (simp add: state_getitem_v_def split: option.splits)

lemma select_spike_train_idx_list_Inl:
  "select_spike_train_idx_list tr vm idx = Inl e \<Longrightarrow> e = AxisError"
  by (auto simp: select_spike_train_idx_list_def numpy_sort_dict_keys_def py_bind_Inl
        split: option.splits)

lemma default_interval_Inl: "default_interval rm t_min t_max = Inl e \<Longrightarrow> e = ValueError"
  by (auto simp: default_interval_def py_bind_Inl dest: py_max_Inl split: option.splits)

lemma plot_raster_Inl: "plot_raster tr w sel k = Inl e \<Longrightarrow> e = KeyError"
  by (induction sel arbitrary: k) (auto simp: py_bind_Inl dest: dict_getitem_Inl)

lemma highlight_raster_Inl:
  "highlight_raster tr w sel i rows = Inl e \<Longrightarrow> e = IndexError \<or> e = KeyError"
  by (induction rows arbitrary: i)
     (auto simp: py_bind_Inl dest: dict_getitem_Inl getitem_Inl)

lemma plot_voltage_traces_Inl:
  "plot_voltage_traces vm w sel i rows = Inl e \<Longrightarrow> e = IndexError"
  by (induction rows arbitrary: i)
     (auto simp: py_bind_Inl dest: state_getitem_v_Inl getitem_Inl)

lemma network_activity_Inl:
  assumes "network_activity rm sm vm idx t_min t_max N = Inl e"
  shows "e = ValueError \<or> e = KeyError \<or> e = IndexError \<or> e = AxisError"
  using assms unfolding network_activity_def Let_def
  by (auto simp: py_bind_Inl
        dest: default_interval_Inl plot_raster_Inl highlight_raster_Inl plot_voltage_traces_Inl
          select_spike_train_idx_list_Inl
        split: if_splits option.splits)

lemma plot_network_activity_typed:
  "optional_StateMonitor V = Some vm \<Longrightarrow> optional_list I = Some idx \<Longrightarrow>
     plot_network_activity (PopulationRateMonitor rm) (SpikeMonitor sm) V I t_min t_max N =
       network_activity rm sm vm idx t_min t_max N"
  by (simp add: plot_network_activity_def)

lemma optional_list_None: "optional_list I = None \<longleftrightarrow> I \<noteq> PyNone \<and> \<not> isinstance_list I"
  by (cases I) simp_all

lemma optional_StateMonitor_Some:
  "optional_StateMonitor V \<noteq> None \<longleftrightarrow> V = PyNone \<or> isinstance_StateMonitor V"
  by (cases V) simp_all

text \<open>
  Claim C8 fails as stated: the check is for the type list, not for a sequence type. A
  tuple of indices is a sequence, and the call raises the assertion error.
\<close>

theorem tuple_index_list_counterexample:
  "is_sequence_type (PyTuple [0, 1])
   \<and> plot_network_activity (PopulationRateMonitor ex_rate) (SpikeMonitor ex_spikes) PyNone
        (PyTuple [0, 1]) None None 3 =
      Inl (AssertionError ''spike_train_idx_list is not of type list'')"
  by (simp add: plot_network_activity_def)

text \<open>
  Claim C8, amended. The call raises the assertion error on the index list exactly when
  the three monitor arguments have passed their own checks and the index list is given
  and is not of type list; nothing else of the arguments matters. A list is never
  rejected: with monitors of the right types the call is the body of the function on
  that list.
\<close>

theorem index_list_validation:
  "(plot_network_activity R S V I t_min t_max N =
        Inl (AssertionError ''spike_train_idx_list is not of type list'')
      \<longleftrightarrow> isinstance_PopulationRateMonitor R \<and> isinstance_SpikeMonitor S
          \<and> (V = PyNone \<or> isinstance_StateMonitor V)
          \<and> I \<noteq> PyNone \<and> \<not> isinstance_list I)
   \<and> plot_network_activity R S V (PyList l) t_min t_max N \<noteq>
        Inl (AssertionError ''spike_train_idx_list is not of type list'')
   \<and> (optional_StateMonitor V = Some vm \<longrightarrow>
        plot_network_activity (PopulationRateMonitor rm) (SpikeMonitor sm) V (PyList l)
          t_min t_max N = network_activity rm sm vm (Some l) t_min t_max N)"
proof -
  have na: "network_activity rm sm vm idx t_min t_max N \<noteq> Inl (AssertionError m)"
    for rm sm vm idx m
    using network_activity_Inl [of rm sm vm idx t_min t_max N "AssertionError m"] by auto
  have a: "plot_network_activity R S V I t_min t_max N =
        Inl (AssertionError ''spike_train_idx_list is not of type list'')
      \<longleftrightarrow> isinstance_PopulationRateMonitor R \<and> isinstance_SpikeMonitor S
          \<and> (V = PyNone \<or> isinstance_StateMonitor V)
          \<and> I \<noteq> PyNone \<and> \<not> isinstance_list I" for I
  proof (cases "optional_list I")
    case None
    then show ?thesis
      unfolding optional_StateMonitor_Some [symmetric]
      using None [unfolded optional_list_None]
      by (cases R; cases S; cases "optional_StateMonitor V")
         (simp_all add: plot_network_activity_def)
  next
    case (Some idx)
    then have ok: "\<not> (I \<noteq> PyNone \<and> \<not> isinstance_list I)"
      using optional_list_None [of I] by simp
    show ?thesis
      using Some ok na
      by (cases R; cases S; cases "optional_StateMonitor V")
         (simp_all add: plot_network_activity_def)
  qed
  have b: "plot_network_activity R S V (PyList l) t_min t_max N \<noteq>
        Inl (AssertionError ''spike_train_idx_list is not of type list'')"
    unfolding a by simp
  have c: "plot_network_activity (PopulationRateMonitor rm) (SpikeMonitor sm) V (PyList l)
          t_min t_max N = network_activity rm sm vm (Some l) t_min t_max N"
    if "optional_StateMonitor V = Some vm"
    using that by (simp add: plot_network_activity_typed)
  show ?thesis using a b c by blast
qed

theorem index_list_validation_witness:
  "plot_network_activity (PopulationRateMonitor ex_rate) (SpikeMonitor ex_spikes5) PyNone
      (PyList [5, 1, 3]) None None 0 = Inr ex_fig_explicit
   \<and> plot_network_activity (PopulationRateMonitor ex_rate) (SpikeMonitor ex_spikes5) PyNone
      (PyInt 3) None None 0 = Inl (AssertionError ''spike_train_idx_list is not of type list'')"
proof -
  have v: "optional_StateMonitor PyNone = Some None" by simp
  have body: "network_activity ex_rate ex_spikes5 None (Some [5, 1, 3]) None None 0
                = Inr ex_fig_explicit"
    by code_simp
  have t: "isinstance_PopulationRateMonitor (PopulationRateMonitor ex_rate)
      \<and> isinstance_SpikeMonitor (SpikeMonitor ex_spikes5)
      \<and> (PyNone = PyNone \<or> isinstance_StateMonitor PyNone)
      \<and> PyInt 3 \<noteq> PyNone \<and> \<not> isinstance_list (PyInt 3)"
    by simp
  from index_list_validation [of "PopulationRateMonitor ex_rate" "SpikeMonitor ex_spikes5"
      PyNone "PyInt 3" None None 0 "[5, 1, 3]" None ex_rate ex_spikes5] v body t
  show ?thesis by simp
qed

subsection \<open>Empty selections\<close>

lemma getitem_Nil: "getitem [] r = Inl IndexError"
  by (auto simp: getitem_def)

lemma highlight_raster_empty_selection:
  "rows \<noteq> [] \<Longrightarrow> highlight_raster tr w [] i rows = Inl IndexError"
  by (cases rows) (simp_all add: getitem_Nil py_bind_def)

text \<open>
  Claim C7 fails as stated: with an empty index list and the default of three
  highlighted spike trains, row 0 of the empty selection is looked up and the call
  raises IndexError.
\<close>

theorem empty_selection_counterexample:
  "plot_network_activity (PopulationRateMonitor ex_rate) (SpikeMonitor ex_spikes) PyNone
     (PyList []) None None 3 = Inl IndexError"
proof -
  have w: "default_interval ex_rate None None = Inr (150, 250)" by code_simp
  have "highlighted_neurons 0 3 \<noteq> []"
    using highlighted_neurons_length [of 0 3] by auto
  from highlight_raster_empty_selection [OF this] show ?thesis
    by (simp add: plot_network_activity_def network_activity_def
          select_spike_train_idx_list_def w py_bind_def)
qed

text \<open>
  Claim C7, amended. When the selection is empty and the time window can be derived,
  the call returns normally exactly when no spike train is to be highlighted
  (\<open>N \<le> 0\<close>): the figure then has an empty raster with y-limits \<open>(0, 0)\<close>, no highlight
  and, with a voltage monitor, a voltage panel without traces. With a positive number
  of highlighted spike trains, the default 3 included, the call raises IndexError.
\<close>

theorem empty_selection:
  assumes "t_max = None \<longrightarrow> rate_t rm \<noteq> []"
    and "optional_StateMonitor V = Some vm" and "optional_list I = Some idx"
    and "select_spike_train_idx_list (spike_trains sm) vm idx = Inr []"
  shows "\<exists>w. default_interval rm t_min t_max = Inr w
     \<and> (N \<le> 0 \<longrightarrow>
          plot_network_activity (PopulationRateMonitor rm) (SpikeMonitor sm) V I t_min t_max N =
            Inr \<lparr> window = w, selection = [], raster = [], raster_ylim = (0, 0),
                  highlights = [], rate_curve = plot_population_activity rm w,
                  ax_voltage = map_option (\<lambda>m. []) vm \<rparr>)
     \<and> (0 < N \<longrightarrow>
          plot_network_activity (PopulationRateMonitor rm) (SpikeMonitor sm) V I t_min t_max N =
            Inl IndexError)"
proof -
  obtain w where w: "default_interval rm t_min t_max = Inr w"
  proof (cases t_max)
    case None
    with assms(1) have "map (\<lambda>x. x / ms) (rate_t rm) \<noteq> []" by simp
    from py_max_Max [OF this] None show ?thesis
      by (intro that) (simp add: default_interval_def py_bind_def)
  next
    case (Some q)
    then show ?thesis by (intro that) (simp add: default_interval_def py_bind_def)
  qed
  note call = plot_network_activity_typed [OF assms(2) assms(3)]
  have le: "network_activity rm sm vm idx t_min t_max N =
            Inr \<lparr> window = w, selection = [], raster = [], raster_ylim = (0, 0),
                  highlights = [], rate_curve = plot_population_activity rm w,
                  ax_voltage = map_option (\<lambda>m. []) vm \<rparr>" if "N \<le> 0"
    unfolding network_activity_def Let_def assms(4) w using that
    by (cases vm) (simp_all add: py_bind_def)
  have gt: "network_activity rm sm vm idx t_min t_max N = Inl IndexError" if "0 < N"
  proof -
    have "highlighted_neurons 0 N \<noteq> []"
      using highlighted_neurons_length [of 0 N] that by auto
    from highlight_raster_empty_selection [OF this] show ?thesis
      unfolding network_activity_def Let_def assms(4) w using that
      by (simp add: py_bind_def)
  qed
  show ?thesis unfolding call using w le gt by blast
qed

theorem empty_selection_witness:
  "plot_network_activity (PopulationRateMonitor ex_rate) (SpikeMonitor ex_spikes)
      (StateMonitor ex_state) (PyList []) None None 0 =
     Inr \<lparr> window = (150, 250), selection = [], raster = [], raster_ylim = (0, 0),
           highlights = [], rate_curve = [(250, 7)], ax_voltage = Some [] \<rparr>
   \<and> plot_network_activity (PopulationRateMonitor ex_rate) (SpikeMonitor ex_spikes)
      (StateMonitor ex_state) (PyList []) None None 1 = Inl IndexError"
proof -
  have r: "None = (None :: rat option) \<longrightarrow> rate_t ex_rate \<noteq> []" by (simp add: ex_rate_def)
  have v: "optional_StateMonitor (StateMonitor ex_state) = Some (Some ex_state)" by simp
  have l: "optional_list (PyList []) = Some (Some [])" by simp
  have e: "select_spike_train_idx_list (spike_trains ex_spikes) (Some ex_state) (Some []) = Inr []"
    by (simp add: select_spike_train_idx_list_def)
  have w: "default_interval ex_rate None None = Inr (150, 250)" by code_simp
  have p: "plot_population_activity ex_rate (150, 250) = [(250, 7)]" by code_simp
  from empty_selection [OF r v l e, of None 0] w p
  have zero: "plot_network_activity (PopulationRateMonitor ex_rate) (SpikeMonitor ex_spikes)
      (StateMonitor ex_state) (PyList []) None None 0 =
     Inr \<lparr> window = (150, 250), selection = [], raster = [], raster_ylim = (0, 0),
           highlights = [], rate_curve = [(250, 7)], ax_voltage = Some [] \<rparr>"
    by auto
  from empty_selection [OF r v l e, of None 1]
  have one: "plot_network_activity (PopulationRateMonitor ex_rate) (SpikeMonitor ex_spikes)
      (StateMonitor ex_state) (PyList []) None None 1 = Inl IndexError"
    by auto
  show ?thesis using zero one by blast
qed

subsection \<open>The voltage panel of plot_network_activity\<close>

lemma getitem_nonneg:
  "getitem xs r = Inr x \<Longrightarrow> 0 \<le> r \<Longrightarrow> nat r < length xs \<and> x = xs ! nat r"
  by (auto simp: getitem_def split: if_splits)

lemma plot_voltage_traces_Inr:
  "plot_voltage_traces vm w sel i rows = Inr ps \<Longrightarrow>
     list_all2 (\<lambda>r p. getitem sel r = Inr (fst (snd p))
                 \<and> (\<exists>tr. state_getitem_v vm (fst (snd p)) = Inr tr
                       \<and> snd (snd p) =
                           filter (\<lambda>q. fst w \<le> fst q \<and> fst q \<le> snd w)
                             (zip (map (\<lambda>x. x / ms) (state_t vm)) (map (\<lambda>x. x / mV) tr))))
       rows ps
     \<and> map fst ps = map (\<lambda>j. if j = 0 then ''r'' else ''.7'') [i..<i + length rows]"
proof (induction rows arbitrary: i ps)
  case Nil
  then show ?case by simp
next
  case (Cons r rows)
  from Cons.prems obtain n tr ps' where
    n: "getitem sel r = Inr n" and tr: "state_getitem_v vm n = Inr tr" and
    ps': "plot_voltage_traces vm w sel (Suc i) rows = Inr ps'" and
    ps: "ps = (if i = 0 then ''r'' else ''.7'', n,
               filter (\<lambda>q. fst w \<le> fst q \<and> fst q \<le> snd w)
                 (zip (map (\<lambda>x. x / ms) (state_t vm)) (map (\<lambda>x. x / mV) tr))) # ps'"
    by (auto simp: py_bind_Inr)
  have u: "[i..<i + length (r # rows)] = i # [Suc i..<Suc i + length rows]"
    using upt_rec [of i "i + length (r # rows)"] by (simp del: upt_Suc)
  from Cons.IH [OF ps'] show ?case
    unfolding ps u using n tr by (simp del: upt_Suc)
qed

lemma network_activity_voltage:
  assumes "network_activity rm sm (Some vm) idx t_min t_max N = Inr fig"
  shows "\<exists>ps. ax_voltage fig = Some ps
     \<and> plot_voltage_traces vm (window fig) (selection fig) 0
          (if N = 0 then map int [0..<length (selection fig)]
           else if 0 < N then highlighted_neurons (length (selection fig)) N else []) = Inr ps"
  using assms unfolding network_activity_def Let_def
  by (auto simp: py_bind_Inr split: if_splits)

lemma network_activity_no_voltage:
  assumes "network_activity rm sm None idx t_min t_max N = Inr fig"
  shows "ax_voltage fig = None"
  using assms unfolding network_activity_def Let_def
  by (auto simp: py_bind_Inr split: if_splits)

text \<open>
  Claim C9 fails as stated: with no highlighted spike train, the traces plotted are
  those of the selected neurons, not of all recorded ones. A monitor that recorded
  neurons 0, 1 and 2 and the index list \<open>[1]\<close> give one trace, of neuron 1.
\<close>

theorem voltage_traces_counterexample:
  "recorded ex_state = [0, 1, 2]
   \<and> map_sum id (map_option (map (fst \<circ> snd)) \<circ> ax_voltage)
       (plot_network_activity (PopulationRateMonitor ex_rate) (SpikeMonitor ex_spikes)
          (StateMonitor ex_state) (PyList [1]) (Some 0) (Some (2 * ms)) 0) = Inr (Some [1])"
proof -
  have "plot_network_activity (PopulationRateMonitor ex_rate) (SpikeMonitor ex_spikes)
          (StateMonitor ex_state) (PyList [1]) (Some 0) (Some (2 * ms)) 0 =
        Inr \<lparr> window = (0, 2), selection = [1], raster = [(0, 1, [])], raster_ylim = (0, 1),
              highlights = [], rate_curve = [(0, 0)],
              ax_voltage = Some [(''r'', 1, [(0, 0), (1, 0), (2, 10)])] \<rparr>"
    by code_simp
  then show ?thesis by (simp add: ex_state_def)
qed

text \<open>
  Claim C9, amended. Every figure returned for a call with a voltage monitor has a
  voltage panel. With a highlight count of 0 it holds one trace per selected neuron, in
  the order of the selection (so all recorded traces when the selection is derived
  from a monitor of at most 500 recorded neurons). With a positive highlight count it
  holds one trace per highlighted raster row, of the neuron selected at that row. Each
  trace is the monitor's trace of its neuron within the window; the first one is drawn
  in \<open>r\<close>, all others in \<open>.7\<close>. Without a voltage monitor there is no voltage panel.
\<close>

theorem voltage_panel_traces:
  assumes "plot_network_activity R S V I t_min t_max N = Inr fig"
  shows "(V = PyNone \<longrightarrow> ax_voltage fig = None)
     \<and> (\<forall>vm. V = StateMonitor vm \<longrightarrow>
          (\<exists>ps. ax_voltage fig = Some ps
             \<and> (N = 0 \<longrightarrow> map (fst \<circ> snd) ps = selection fig)
             \<and> (N = 0 \<and> I = PyNone \<and> length (recorded vm) \<le> 500 \<longrightarrow>
                  map (fst \<circ> snd) ps = sort (recorded vm))
             \<and> (0 < N \<longrightarrow>
                  map (fst \<circ> snd) ps =
                    map (\<lambda>r. selection fig ! nat r)
                      (highlighted_neurons (length (selection fig)) N)
                  \<and> map fst (highlights fig) = highlighted_neurons (length (selection fig)) N)
             \<and> (\<forall>p \<in> set ps. \<exists>tr. state_getitem_v vm (fst (snd p)) = Inr tr
                  \<and> snd (snd p) =
                      filter (\<lambda>q. fst (window fig) \<le> fst q \<and> fst q \<le> snd (window fig))
                        (zip (map (\<lambda>x. x / ms) (state_t vm)) (map (\<lambda>x. x / mV) tr)))
             \<and> map fst ps = map (\<lambda>j. if j = 0 then ''r'' else ''.7'') [0..<length ps]))"
proof -
  from plot_network_activity_Inr [OF assms] obtain rm sm vmo idx where
    S: "S = SpikeMonitor sm" and V: "optional_StateMonitor V = Some vmo" and
    I: "optional_list I = Some idx" and
    na: "network_activity rm sm vmo idx t_min t_max N = Inr fig"
    by blast
  have none: "ax_voltage fig = None" if "V = PyNone"
    using V na that by (auto dest: network_activity_no_voltage)
  have some: "\<exists>ps. ax_voltage fig = Some ps
             \<and> (N = 0 \<longrightarrow> map (fst \<circ> snd) ps = selection fig)
             \<and> (N = 0 \<and> I = PyNone \<and> length (recorded vm) \<le> 500 \<longrightarrow>
                  map (fst \<circ> snd) ps = sort (recorded vm))
             \<and> (0 < N \<longrightarrow>
                  map (fst \<circ> snd) ps =
                    map (\<lambda>r. selection fig ! nat r)
                      (highlighted_neurons (length (selection fig)) N)
                  \<and> map fst (highlights fig) = highlighted_neurons (length (selection fig)) N)
             \<and> (\<forall>p \<in> set ps. \<exists>tr. state_getitem_v vm (fst (snd p)) = Inr tr
                  \<and> snd (snd p) =
                      filter (\<lambda>q. fst (window fig) \<le> fst q \<and> fst q \<le> snd (window fig))
                        (zip (map (\<lambda>x. x / ms) (state_t vm)) (map (\<lambda>x. x / mV) tr)))
             \<and> map fst ps = map (\<lambda>j. if j = 0 then ''r'' else ''.7'') [0..<length ps]"
    if Vm: "V = StateMonitor vm" for vm
  proof -
    let ?sel = "selection fig"
    let ?rows = "if N = 0 then map int [0..<length ?sel]
           else if 0 < N then highlighted_neurons (length ?sel) N else []"
    from V Vm have vmo: "vmo = Some vm" by simp
    from network_activity_voltage [OF na [unfolded vmo]] obtain ps where
      ax: "ax_voltage fig = Some ps" and
      pv: "plot_voltage_traces vm (window fig) ?sel 0 ?rows = Inr ps"
      by blast
    note tr = plot_voltage_traces_Inr [OF pv]
    from tr have l2: "list_all2 (\<lambda>r p. getitem ?sel r = Inr (fst (snd p))) ?rows ps"
      by (auto elim: list_all2_mono)
    then have len: "length ps = length ?rows" by (simp add: list_all2_lengthD)
    have nonneg: "0 \<le> r" if "r \<in> set ?rows" for r
      using that highlighted_neurons_nonneg [of r "length ?sel" N]
      by (auto split: if_splits)
    have neurons: "map (fst \<circ> snd) ps = map (\<lambda>r. ?sel ! nat r) ?rows"
    proof (rule nth_equalityI)
      show "length (map (fst \<circ> snd) ps) = length (map (\<lambda>r. ?sel ! nat r) ?rows)"
        using len by simp
    next
      fix j assume "j < length (map (fst \<circ> snd) ps)"
      then have j: "j < length ?rows" using len by simp
      then have "getitem ?sel (?rows ! j) = Inr (fst (snd (ps ! j)))"
        using l2 by (simp add: list_all2_conv_all_nth)
      moreover have "0 \<le> ?rows ! j" using j nonneg by (meson nth_mem)
      ultimately have "fst (snd (ps ! j)) = ?sel ! nat (?rows ! j)"
        by (auto dest: getitem_nonneg)
      then show "map (fst \<circ> snd) ps ! j = map (\<lambda>r. ?sel ! nat r) ?rows ! j"
        using j len by simp
    qed
    have zero: "map (fst \<circ> snd) ps = ?sel" if "N = 0"
      using neurons that by (simp add: comp_def map_nth)
    have derived: "map (fst \<circ> snd) ps = sort (recorded vm)"
      if "N = 0 \<and> I = PyNone \<and> length (recorded vm) \<le> 500"
    proof -
      from that I have "idx = None" by simp
      then have "?sel = sort (recorded vm)"
        using network_activity_selection [OF na] vmo that
        by (simp add: select_spike_train_idx_list_def py_bind_def)
      with zero that show ?thesis by simp
    qed
    have pos: "map (fst \<circ> snd) ps = map (\<lambda>r. ?sel ! nat r) (highlighted_neurons (length ?sel) N)
        \<and> map fst (highlights fig) = highlighted_neurons (length ?sel) N" if "0 < N"
      using neurons that network_activity_highlights [OF na that] by simp
    have traces: "\<forall>p \<in> set ps. \<exists>tr. state_getitem_v vm (fst (snd p)) = Inr tr
                  \<and> snd (snd p) =
                      filter (\<lambda>q. fst (window fig) \<le> fst q \<and> fst q \<le> snd (window fig))
                        (zip (map (\<lambda>x. x / ms) (state_t vm)) (map (\<lambda>x. x / mV) tr))"
    proof
      fix p assume "p \<in> set ps"
      then obtain j where j: "j < length ps" and p: "p = ps ! j"
        by (auto simp: in_set_conv_nth)
      from tr j show "\<exists>tr. state_getitem_v vm (fst (snd p)) = Inr tr
                  \<and> snd (snd p) =
                      filter (\<lambda>q. fst (window fig) \<le> fst q \<and> fst q \<le> snd (window fig))
                        (zip (map (\<lambda>x. x / ms) (state_t vm)) (map (\<lambda>x. x / mV) tr))"
        unfolding p by (auto simp: list_all2_conv_all_nth)
    qed
    have colours: "map fst ps = map (\<lambda>j. if j = 0 then ''r'' else ''.7'') [0..<length ps]"
      using tr len by simp
    show ?thesis using ax zero derived pos traces colours by blast
  qed
  show ?thesis using none some by blast
qed

theorem voltage_panel_traces_witness:
  "plot_network_activity (PopulationRateMonitor ex_rate) (SpikeMonitor ex_spikes_unordered)
      (StateMonitor ex_state) PyNone (Some 0) (Some (2 * ms)) 3 = Inr ex_fig_voltage
   \<and> map_option (map (fst \<circ> snd)) (ax_voltage ex_fig_voltage) = Some [0, 1, 2]
   \<and> map_option (map fst) (ax_voltage ex_fig_voltage) = Some [''r'', ''.7'', ''.7'']
   \<and> plot_network_activity (PopulationRateMonitor ex_rate) (SpikeMonitor ex_spikes5)
        PyNone (PyList [5, 1, 3]) None None 0 = Inr ex_fig_explicit
   \<and> ax_voltage ex_fig_explicit = None"
proof -
  have rows: "highlighted_neurons 3 3 = [0, 1, 2]"
    using highlighted_neurons_three(2) [of 3] by simp
  have len3: "length [0, 1, 2 :: int] = 3" by simp
  have rows': "highlighted_neurons (length [0, 1, 2 :: int]) 3 = [0, 1, 2]"
    unfolding len3 by (rule rows)
  have "network_activity ex_rate ex_spikes_unordered (Some ex_state) None (Some 0)
          (Some (2 * ms)) 3 =
      Inr \<lparr> window = (0, 2), selection = [0, 1, 2],
            raster = [(0, 0, []), (1, 1, []), (2, 2, [])],
            raster_ylim = (0, 3),
            highlights = [(0, ''r'', []), (1, ''k'', []), (2, ''k'', [])],
            rate_curve = plot_population_activity ex_rate (0, 2),
            ax_voltage = Some [(''r'', 0, [(0, 0), (1, 10), (2, 5)]),
                               (''.7'', 1, [(0, 0), (1, 0), (2, 10)]),
                               (''.7'', 2, [(0, 10), (1, 0), (2, 0)])] \<rparr>"
  proof (rule network_activity_highlighting [OF _ _ _ _ rows'])
    show "select_spike_train_idx_list (spike_trains ex_spikes_unordered) (Some ex_state) None
            = Inr [0, 1, 2]"
      by code_simp
    show "default_interval ex_rate (Some 0) (Some (2 * ms)) = Inr (0, 2)" by code_simp
    show "plot_raster (spike_trains ex_spikes_unordered) (0, 2) [0, 1, 2] 0 =
            Inr ([(0, 0, []), (1, 1, []), (2, 2, [])], 3)"
      by code_simp
    show "(0::int) < 3" by simp
    show "highlight_raster (spike_trains ex_spikes_unordered) (0, 2) [0, 1, 2] 0 [0, 1, 2] =
            Inr [(0, ''r'', []), (1, ''k'', []), (2, ''k'', [])]"
      by code_simp
    show "(case Some ex_state of None \<Rightarrow> Inr None
           | Some m \<Rightarrow> py_bind (plot_voltage_traces m (0, 2) [0, 1, 2] 0 [0, 1, 2])
               (\<lambda>ps. Inr (Some ps))) =
          Inr (Some [(''r'', 0, [(0, 0), (1, 10), (2, 5)]),
                     (''.7'', 1, [(0, 0), (1, 0), (2, 10)]),
                     (''.7'', 2, [(0, 10), (1, 0), (2, 0)])])"
      by code_simp
  qed
  moreover have "plot_population_activity ex_rate (0, 2) = [(0, 0)]" by code_simp
  ultimately have call: "plot_network_activity (PopulationRateMonitor ex_rate)
      (SpikeMonitor ex_spikes_unordered) (StateMonitor ex_state) PyNone (Some 0) (Some (2 * ms)) 3
        = Inr ex_fig_voltage"
    by (simp add: plot_network_activity_def ex_fig_voltage_def)
  have sel: "selection ex_fig_voltage = [0, 1, 2]" by (simp add: ex_fig_voltage_def)
  from voltage_panel_traces [OF call] obtain ps where
    ps: "ax_voltage ex_fig_voltage = Some ps" and
    n: "map (fst \<circ> snd) ps = map (\<lambda>r. selection ex_fig_voltage ! nat r)
          (highlighted_neurons (length (selection ex_fig_voltage)) 3)" and
    c: "map fst ps = map (\<lambda>j. if j = 0 then ''r'' else ''.7'') [0..<length ps]"
    by auto
  have len: "length ps = 3" using ps by (auto simp: ex_fig_voltage_def)
  have l3: "length (selection ex_fig_voltage) = 3" by (simp add: sel)
  have one: "map_option (map (fst \<circ> snd)) (ax_voltage ex_fig_voltage) = Some [0, 1, 2]"
    unfolding ps using n [unfolded l3, unfolded rows, unfolded sel] by simp
  have two: "map_option (map fst) (ax_voltage ex_fig_voltage) = Some [''r'', ''.7'', ''.7'']"
    unfolding ps using c len by (simp add: upt_rec)
  have call2: "plot_network_activity (PopulationRateMonitor ex_rate) (SpikeMonitor ex_spikes5)
        PyNone (PyList [5, 1, 3]) None None 0 = Inr ex_fig_explicit"
    by code_simp
  from voltage_panel_traces [OF call2] have three: "ax_voltage ex_fig_explicit = None"
    by simp
  show ?thesis using call one two call2 three by blast
qed

end
